theory Spec2Isabelle
  imports Main
begin

section \<open>The contract RefugeeAssistanceFHE (contracts/RefugeeAssistanceFHE.sol)\<close>

text \<open>
  Solidity values are modelled as follows.
  \<^item> \<open>uint256\<close> and \<open>uint32\<close> are natural numbers; Solidity 0.8 arithmetic is checked, so
    every \<open>+=\<close>, \<open>++\<close> and \<open>*\<close> of the source is written with its overflow test and
    reverts (\<open>Panic_overflow\<close>) where the source would.
  \<^item> \<open>euint32\<close> is the \<open>bytes32\<close> handle of a ciphertext, a natural number;
    \<open>FHE.toBytes32\<close> unwraps it.
  \<^item> a \<open>mapping\<close> is a total function: every key reads as the zero value of the struct
    until it is written.
  \<^item> a revert is the left summand of the result: the transaction leaves no trace.
  \<^item> the FHE library and \<open>abi.decode\<close> are not part of the repository. What they do
    is an input of the model: whether \<open>FHE.requestDecryption\<close> returns a request id or
    reverts, whether \<open>FHE.checkSignatures\<close> accepts, what \<open>abi.decode\<close> yields (\<open>None\<close>
    when it reverts), the handles \<open>FHE.asEuint32\<close> produces, \<open>msg.sender\<close> and
    \<open>block.timestamp\<close>.
\<close>

type_synonym uint256 = nat
type_synonym uint32 = nat
type_synonym euint32 = nat
type_synonym address = nat

definition MAX_UINT256 :: nat where
  "MAX_UINT256 = 2 ^ 256 - 1"

definition MAX_UINT32 :: nat where
  "MAX_UINT32 = 2 ^ 32 - 1"

record EncryptedRefugee =
  refugeeId :: uint256
  encryptedIdentity :: euint32
  encryptedLocation :: euint32
  encryptedNeeds :: euint32
  timestamp :: uint256

record EncryptedAidPackage =
  packageId :: uint256
  encryptedResources :: euint32
  encryptedQuantities :: euint32
  p_timestamp :: uint256

record EncryptedVerification =
  verificationId :: uint256
  encryptedEligibility :: euint32
  encryptedPriority :: euint32
  v_refugeeId :: uint256
  v_packageId :: uint256
  verifiedAt :: uint256

record DecryptedResult =
  eligibility :: uint32
  priority :: uint32
  isRevealed :: bool

datatype event =
    RefugeeRegistered uint256 uint256
  | AidPackageCreated uint256 uint256
  | VerificationRequested uint256 uint256
  | VerificationCompleted uint256
  | ResultDecrypted uint256

text \<open>The callback selector handed to \<open>FHE.requestDecryption\<close>.\<close>

datatype selector = performVerification_selector | decryptVerification_selector

text \<open>
  The reverts of the contract: the two \<open>require\<close> messages, a revert inside
  \<open>FHE.requestDecryption\<close>, a revert inside \<open>FHE.checkSignatures\<close>, a revert of
  \<open>abi.decode\<close>, and the two arithmetic panics.
\<close>

datatype error =
    Invalid_request
  | Already_decrypted
  | RequestDecryption_reverted
  | Signatures_rejected
  | Decode_failed
  | Panic_overflow
  | Panic_division_by_zero

text \<open>
  The storage of the contract, followed by what a transaction leaves outside it: the
  events the contract emits and the decryption requests the oracle accepted (request
  id, ciphertext handles, callback), both in chronological order. Events emitted
  inside the FHE library are not part of the log.
\<close>

record state =
  refugeeCount :: uint256
  packageCount :: uint256
  verificationCount :: uint256
  encryptedRefugees :: "uint256 \<Rightarrow> EncryptedRefugee"
  encryptedPackages :: "uint256 \<Rightarrow> EncryptedAidPackage"
  encryptedVerifications :: "uint256 \<Rightarrow> EncryptedVerification"
  decryptedResults :: "uint256 \<Rightarrow> DecryptedResult"
  requestToRefugeeId :: "uint256 \<Rightarrow> uint256"
  verificationRequestToId :: "uint256 \<Rightarrow> uint256"
  events :: "event list"
  oracleRequests :: "(uint256 \<times> euint32 list \<times> selector) list"

definition zero_refugee :: EncryptedRefugee where
  "zero_refugee = \<lparr>refugeeId = 0, encryptedIdentity = 0, encryptedLocation = 0,
     encryptedNeeds = 0, timestamp = 0\<rparr>"

definition zero_package :: EncryptedAidPackage where
  "zero_package = \<lparr>packageId = 0, encryptedResources = 0, encryptedQuantities = 0,
     p_timestamp = 0\<rparr>"

definition zero_verification :: EncryptedVerification where
  "zero_verification = \<lparr>verificationId = 0, encryptedEligibility = 0,
     encryptedPriority = 0, v_refugeeId = 0, v_packageId = 0, verifiedAt = 0\<rparr>"

definition zero_result :: DecryptedResult where
  "zero_result = \<lparr>eligibility = 0, priority = 0, isRevealed = False\<rparr>"

text \<open>The state of a freshly deployed contract.\<close>

definition init_state :: state where
  "init_state = \<lparr>refugeeCount = 0, packageCount = 0, verificationCount = 0,
     encryptedRefugees = (\<lambda>_. zero_refugee),
     encryptedPackages = (\<lambda>_. zero_package),
     encryptedVerifications = (\<lambda>_. zero_verification),
     decryptedResults = (\<lambda>_. zero_result),
     requestToRefugeeId = (\<lambda>_. 0),
     verificationRequestToId = (\<lambda>_. 0),
     events = [], oracleRequests = []\<rparr>"

subsection \<open>The modifier\<close>

text \<open>
  \<^verbatim>\<open>modifier onlyAgency() { // Add proper aid agency authentication in production
       _; }\<close>
  The body of the modified function runs, and nothing else; \<open>msg.sender\<close>, the first
  argument, is not read.
\<close>

definition onlyAgency :: "address \<Rightarrow> (state \<Rightarrow> error + state) \<Rightarrow> state \<Rightarrow> error + state" where
  "onlyAgency msg_sender body s = body s"

subsection \<open>The scoring helpers\<close>

text \<open>
  \<open>calculateEligibility\<close>: \<open>score\<close> is a \<open>uint32\<close> that starts at 0 and receives at most
  two additions of 50, so the checked additions cannot overflow.
\<close>

definition calculateEligibility :: "string \<Rightarrow> string \<Rightarrow> uint32" where
  "calculateEligibility identity needs =
     (let idBytes = identity;
          needsBytes = needs;
          score0 = (0 :: nat);
          score1 = (if length idBytes > 10 then score0 + 50 else score0);
          score2 = (if length needsBytes > 5 then score1 + 50 else score1)
      in if score2 > 100 then 100 else score2)"

text \<open>
  The loop of \<open>calculatePriority\<close>, from index \<open>i\<close> with \<open>matches\<close> counted so far.
  \<open>matches++\<close> is a checked \<open>uint32\<close> increment; \<open>i++\<close> cannot overflow, since \<open>i\<close>
  is below a length.
\<close>

function calculatePriority_loop :: "string \<Rightarrow> string \<Rightarrow> nat \<Rightarrow> uint32 \<Rightarrow> error + uint32" where
  "calculatePriority_loop needsBytes resBytes i matches =
     (if i < length needsBytes \<and> i < length resBytes then
        (if needsBytes ! i = resBytes ! i then
           (if matches + 1 > MAX_UINT32 then Inl Panic_overflow
            else calculatePriority_loop needsBytes resBytes (i + 1) (matches + 1))
         else calculatePriority_loop needsBytes resBytes (i + 1) matches)
      else Inr matches)"
  by pat_completeness auto
termination
  by (relation "measure (\<lambda>(needsBytes, resBytes, i, matches). length needsBytes - i)") auto

declare calculatePriority_loop.simps [simp del]

text \<open>
  \<open>return matches * 100 / uint32(needsBytes.length > 0 ? needsBytes.length : 1)\<close>:
  the product is a checked \<open>uint32\<close> multiplication, the conversion \<open>uint32(...)\<close> of the
  length truncates to 32 bits, and a division by zero panics.
\<close>

definition calculatePriority :: "string \<Rightarrow> string \<Rightarrow> error + uint32" where
  "calculatePriority needs resources =
     (case calculatePriority_loop needs resources 0 0 of
        Inl e \<Rightarrow> Inl e
      | Inr matches \<Rightarrow>
          if matches * 100 > MAX_UINT32 then Inl Panic_overflow
          else
            let divisor = (if length needs > 0 then length needs else 1) mod 2 ^ 32
            in if divisor = 0 then Inl Panic_division_by_zero
               else Inr (matches * 100 div divisor))"

subsection \<open>The state-changing functions\<close>

text \<open>
  \<open>registerEncryptedRefugee\<close>; the first argument is \<open>msg.sender\<close>, the last is
  \<open>block.timestamp\<close>.
\<close>

definition registerEncryptedRefugee ::
  "address \<Rightarrow> euint32 \<Rightarrow> euint32 \<Rightarrow> euint32 \<Rightarrow> uint256 \<Rightarrow> state \<Rightarrow> error + state" where
  "registerEncryptedRefugee msg_sender encIdentity encLocation encNeeds block_timestamp =
     onlyAgency msg_sender (\<lambda>s.
       if refugeeCount s + 1 > MAX_UINT256 then Inl Panic_overflow
       else
         let newRefugeeId = refugeeCount s + 1
         in Inr (s\<lparr>refugeeCount := newRefugeeId,
                   encryptedRefugees := (encryptedRefugees s)(newRefugeeId :=
                     \<lparr>refugeeId = newRefugeeId,
                      encryptedIdentity = encIdentity,
                      encryptedLocation = encLocation,
                      encryptedNeeds = encNeeds,
                      timestamp = block_timestamp\<rparr>),
                   events := events s @ [RefugeeRegistered newRefugeeId block_timestamp]\<rparr>))"

definition createAidPackage ::
  "address \<Rightarrow> euint32 \<Rightarrow> euint32 \<Rightarrow> uint256 \<Rightarrow> state \<Rightarrow> error + state" where
  "createAidPackage msg_sender encResources encQuantities block_timestamp =
     onlyAgency msg_sender (\<lambda>s.
       if packageCount s + 1 > MAX_UINT256 then Inl Panic_overflow
       else
         let newPackageId = packageCount s + 1
         in Inr (s\<lparr>packageCount := newPackageId,
                   encryptedPackages := (encryptedPackages s)(newPackageId :=
                     \<lparr>packageId = newPackageId,
                      encryptedResources = encResources,
                      encryptedQuantities = encQuantities,
                      p_timestamp = block_timestamp\<rparr>),
                   events := events s @ [AidPackageCreated newPackageId block_timestamp]\<rparr>))"

text \<open>
  \<open>verifyEligibility\<close>. The two structs are read from storage without any test that
  they were ever written. \<open>requested\<close> is what the call
  \<open>FHE.requestDecryption(ciphertexts, this.performVerification.selector)\<close> does:
  \<open>None\<close> when it reverts, \<open>Some reqId\<close> when it returns \<open>reqId\<close>. The call comes
  before the write of the mapping and the event.
\<close>

definition verifyEligibility ::
  "address \<Rightarrow> uint256 \<Rightarrow> uint256 \<Rightarrow> uint256 option \<Rightarrow> state \<Rightarrow> error + state" where
  "verifyEligibility msg_sender refugeeId' packageId' requested =
     onlyAgency msg_sender (\<lambda>s.
       let refugee = encryptedRefugees s refugeeId';
           aidPackage = encryptedPackages s packageId';
           ciphertexts = [encryptedIdentity refugee, encryptedNeeds refugee,
                          encryptedResources aidPackage]
       in (case requested of
             None \<Rightarrow> Inl RequestDecryption_reverted
           | Some reqId \<Rightarrow>
               Inr (s\<lparr>requestToRefugeeId := (requestToRefugeeId s)(reqId := refugeeId'),
                     events := events s @ [VerificationRequested reqId refugeeId'],
                     oracleRequests := oracleRequests s @
                       [(reqId, ciphertexts, performVerification_selector)]\<rparr>)))"

text \<open>
  \<open>performVerification\<close>, the callback of \<open>verifyEligibility\<close>. \<open>sigsValid\<close> says
  whether \<open>FHE.checkSignatures(requestId, cleartexts, proof)\<close> returns (it reverts
  otherwise), \<open>decoded\<close> is the result of
  \<open>abi.decode(cleartexts, (string, string, string))\<close>, \<open>hEligibility\<close> and \<open>hPriority\<close>
  are the handles returned by the two calls of \<open>FHE.asEuint32\<close>.
\<close>

definition performVerification ::
  "uint256 \<Rightarrow> bool \<Rightarrow> (string \<times> string \<times> string) option \<Rightarrow> euint32 \<Rightarrow> euint32 \<Rightarrow> uint256
     \<Rightarrow> state \<Rightarrow> error + state" where
  "performVerification requestId sigsValid decoded hEligibility hPriority block_timestamp s =
     (let refugeeId' = requestToRefugeeId s requestId
      in if refugeeId' = 0 then Inl Invalid_request
         else if \<not> sigsValid then Inl Signatures_rejected
         else
           (case decoded of
              None \<Rightarrow> Inl Decode_failed
            | Some (identity, needs, resources) \<Rightarrow>
                if verificationCount s + 1 > MAX_UINT256 then Inl Panic_overflow
                else
                  let newVerificationId = verificationCount s + 1;
                      eligibility' = calculateEligibility identity needs
                  in (case calculatePriority needs resources of
                        Inl e \<Rightarrow> Inl e
                      | Inr priority' \<Rightarrow>
                          Inr (s\<lparr>verificationCount := newVerificationId,
                                 encryptedVerifications :=
                                   (encryptedVerifications s)(newVerificationId :=
                                     \<lparr>verificationId = newVerificationId,
                                      encryptedEligibility = hEligibility,
                                      encryptedPriority = hPriority,
                                      v_refugeeId = refugeeId',
                                      v_packageId = 0,
                                      verifiedAt = block_timestamp\<rparr>),
                                 decryptedResults :=
                                   (decryptedResults s)(newVerificationId :=
                                     \<lparr>eligibility = eligibility',
                                      priority = priority',
                                      isRevealed = False\<rparr>),
                                 events := events s @
                                   [VerificationCompleted newVerificationId]\<rparr>))))"

text \<open>
  \<open>requestVerificationResult\<close>. \<open>requested\<close> is what the call
  \<open>FHE.requestDecryption(ciphertexts, this.decryptVerification.selector)\<close> does, as in
  \<open>verifyEligibility\<close>; it comes after the \<open>require\<close> and before the write of the
  mapping. The function emits no event.
\<close>

definition requestVerificationResult ::
  "address \<Rightarrow> uint256 \<Rightarrow> uint256 option \<Rightarrow> state \<Rightarrow> error + state" where
  "requestVerificationResult msg_sender verificationId' requested =
     onlyAgency msg_sender (\<lambda>s.
       let verification = encryptedVerifications s verificationId'
       in if isRevealed (decryptedResults s verificationId') then Inl Already_decrypted
          else
            let ciphertexts = [encryptedEligibility verification,
                               encryptedPriority verification]
            in (case requested of
                  None \<Rightarrow> Inl RequestDecryption_reverted
                | Some reqId \<Rightarrow>
                    Inr (s\<lparr>verificationRequestToId :=
                            (verificationRequestToId s)(reqId := verificationId'),
                          oracleRequests := oracleRequests s @
                            [(reqId, ciphertexts, decryptVerification_selector)]\<rparr>)))"

text \<open>
  \<open>decryptVerification\<close>, the callback of \<open>requestVerificationResult\<close>. \<open>decoded\<close> is
  the result of \<open>abi.decode(cleartexts, (uint32, uint32))\<close>, which reverts on a value
  that does not fit 32 bits.
\<close>

definition decryptVerification ::
  "uint256 \<Rightarrow> bool \<Rightarrow> (nat \<times> nat) option \<Rightarrow> state \<Rightarrow> error + state" where
  "decryptVerification requestId sigsValid decoded s =
     (let verificationId' = verificationRequestToId s requestId
      in if verificationId' = 0 then Inl Invalid_request
         else
           let dResult = decryptedResults s verificationId'
           in if isRevealed dResult then Inl Already_decrypted
              else if \<not> sigsValid then Inl Signatures_rejected
              else
                (case decoded of
                   None \<Rightarrow> Inl Decode_failed
                 | Some (eligibility', priority') \<Rightarrow>
                     if eligibility' > MAX_UINT32 \<or> priority' > MAX_UINT32
                     then Inl Decode_failed
                     else
                       Inr (s\<lparr>decryptedResults :=
                                (decryptedResults s)(verificationId' :=
                                  dResult\<lparr>eligibility := eligibility',
                                          priority := priority',
                                          isRevealed := True\<rparr>),
                              events := events s @ [ResultDecrypted verificationId']\<rparr>)))"

text \<open>The view function \<open>getDecryptedResult\<close>.\<close>

definition getDecryptedResult :: "uint256 \<Rightarrow> state \<Rightarrow> uint32 \<times> uint32 \<times> bool" where
  "getDecryptedResult verificationId' s =
     (let r = decryptedResults s verificationId'
      in (eligibility r, priority r, isRevealed r))"

subsection \<open>Transactions\<close>

text \<open>
  A call of a public state-changing function, with the values the environment supplies.
  A reverted transaction leaves the state as it was; \<open>run\<close> executes a sequence of
  transactions in order.
\<close>

datatype call =
    RegisterEncryptedRefugee address euint32 euint32 euint32 uint256
  | CreateAidPackage address euint32 euint32 uint256
  | VerifyEligibility address uint256 uint256 "uint256 option"
  | PerformVerification uint256 bool "(string \<times> string \<times> string) option" euint32 euint32 uint256
  | RequestVerificationResult address uint256 "uint256 option"
  | DecryptVerification uint256 bool "(nat \<times> nat) option"

fun exec :: "call \<Rightarrow> state \<Rightarrow> error + state" where
  "exec (RegisterEncryptedRefugee x a b c t) s = registerEncryptedRefugee x a b c t s"
| "exec (CreateAidPackage x a b t) s = createAidPackage x a b t s"
| "exec (VerifyEligibility x r p q) s = verifyEligibility x r p q s"
| "exec (PerformVerification q v d hE hP t) s = performVerification q v d hE hP t s"
| "exec (RequestVerificationResult x v q) s = requestVerificationResult x v q s"
| "exec (DecryptVerification q v d) s = decryptVerification q v d s"

definition transact :: "call \<Rightarrow> state \<Rightarrow> state" where
  "transact c s = (case exec c s of Inl e \<Rightarrow> s | Inr s' \<Rightarrow> s')"

fun run :: "call list \<Rightarrow> state \<Rightarrow> state" where
  "run [] s = s"
| "run (c # cs) s = run cs (transact c s)"

text \<open>
  The identifiers that \<open>RefugeeRegistered\<close> events announce, oldest first: the
  identifiers the contract has assigned to records.
\<close>

fun registered_ids :: "event list \<Rightarrow> uint256 list" where
  "registered_ids [] = []"
| "registered_ids (RefugeeRegistered i t # es) = i # registered_ids es"
| "registered_ids (e # es) = registered_ids es"

text \<open>A record is stored under a key when the slot holds something else than zeros.\<close>

definition refugee_exists :: "state \<Rightarrow> uint256 \<Rightarrow> bool" where
  "refugee_exists s i = (encryptedRefugees s i \<noteq> zero_refugee)"

definition verification_exists :: "state \<Rightarrow> uint256 \<Rightarrow> bool" where
  "verification_exists s i = (encryptedVerifications s i \<noteq> zero_verification)"

definition package_exists :: "state \<Rightarrow> uint256 \<Rightarrow> bool" where
  "package_exists s i = (encryptedPackages s i \<noteq> zero_package)"

subsection \<open>What is assumed of the FHE library\<close>

text \<open>
  \<open>FHE.requestDecryption\<close> belongs to the library \<^verbatim>\<open>@fhevm/solidity\<close>, outside the
  repository. Where a property depends on how the library answers, two facts about
  it are assumed, and stated as a condition on a call in a state:
  \<^item> its access control refuses a request that contains a handle the contract holds
    no permission on, and nobody holds a permission on the zero handle, which is what
    an unwritten slot reads as: an accepted request contains no zero handle;
  \<^item> it hands out a request id only once: the id of an accepted request is not the id
    of an earlier accepted request.
  \<open>submitted_handles\<close> are the ciphertexts a call passes to the library,
  \<open>requested_of\<close> is the library's answer the call carries, \<open>requested_ids\<close> are the
  ids of the requests accepted so far.
\<close>

fun submitted_handles :: "call \<Rightarrow> state \<Rightarrow> euint32 list" where
  "submitted_handles (VerifyEligibility x r p q) s =
     [encryptedIdentity (encryptedRefugees s r), encryptedNeeds (encryptedRefugees s r),
      encryptedResources (encryptedPackages s p)]"
| "submitted_handles (RequestVerificationResult x v q) s =
     [encryptedEligibility (encryptedVerifications s v),
      encryptedPriority (encryptedVerifications s v)]"
| "submitted_handles c s = []"

fun requested_of :: "call \<Rightarrow> uint256 option" where
  "requested_of (VerifyEligibility x r p q) = q"
| "requested_of (RequestVerificationResult x v q) = q"
| "requested_of c = None"

definition requested_ids :: "state \<Rightarrow> uint256 set" where
  "requested_ids s = fst ` set (oracleRequests s)"

definition library_ok :: "call \<Rightarrow> state \<Rightarrow> bool" where
  "library_ok c s =
     (case requested_of c of
        None \<Rightarrow> True
      | Some reqId \<Rightarrow> 0 \<notin> set (submitted_handles c s) \<and> reqId \<notin> requested_ids s)"

text \<open>A sequence of transactions in which the library answers every call in this way.\<close>

fun runs_ok :: "call list \<Rightarrow> state \<Rightarrow> bool" where
  "runs_ok [] s = True"
| "runs_ok (c # cs) s = (library_ok c s \<and> runs_ok cs (transact c s))"

section \<open>The interface (frontend/web/src/App.tsx)\<close>

text \<open>
  The interface keeps aid records in a key-value contract (\<open>getData\<close>, \<open>setData\<close>): the
  bytes under the key \<open>aid_\<close> followed by the record id are the JSON text of one
  record. The store is a map from keys to bytes; a key without bytes
  (\<open>recordBytes.length === 0\<close>) maps to \<open>None\<close>. Bytes are either the JSON text of a
  record, held as the parsed record, or bytes that \<open>ethers.toUtf8String\<close> or
  \<open>JSON.parse\<close> cannot read. The status of a record is one of the four values of the
  union type of \<open>AidRecord.status\<close>.
\<close>

datatype record_status = pending | approved | distributed | rejected

record AidRecord =
  data :: string
  r_timestamp :: nat
  owner :: string
  category :: string
  status :: record_status
  amount :: nat
  location :: string
  needs :: "string list"

datatype stored_bytes = Record_json AidRecord | Unreadable

type_synonym store = "string \<rightharpoonup> stored_bytes"

text \<open>
  What can go wrong in \<open>approveRecord\<close> and \<open>distributeRecord\<close>, in the order of the
  code: no wallet provider (an alert, then return), no contract from
  \<open>getContractWithSigner\<close>, a \<open>getData\<close> call that is rejected, no bytes under the key,
  bytes that cannot be read as JSON, or a \<open>setData\<close> transaction that is rejected. Each
  is caught and shown; the store stays as it was. \<open>account\<close> is the connected account
  of the interface; neither function reads it.
\<close>

datatype ui_error =
    Wallet_not_connected
  | No_contract
  | GetData_failed
  | Record_not_found
  | Parse_failed
  | SetData_failed

record ui_env =
  account :: string
  provider_connected :: bool
  contract_with_signer :: bool
  getData_succeeds :: bool
  setData_succeeds :: bool

definition approveRecord :: "ui_env \<Rightarrow> string \<Rightarrow> store \<Rightarrow> ui_error + store" where
  "approveRecord env recordId st =
     (if \<not> provider_connected env then Inl Wallet_not_connected
      else if \<not> contract_with_signer env then Inl No_contract
      else if \<not> getData_succeeds env then Inl GetData_failed
      else
        (case st (''aid_'' @ recordId) of
           None \<Rightarrow> Inl Record_not_found
         | Some Unreadable \<Rightarrow> Inl Parse_failed
         | Some (Record_json recordData) \<Rightarrow>
             let updatedRecord = recordData\<lparr>status := approved\<rparr>
             in if \<not> setData_succeeds env then Inl SetData_failed
                else Inr (st(''aid_'' @ recordId \<mapsto> Record_json updatedRecord))))"

definition distributeRecord :: "ui_env \<Rightarrow> string \<Rightarrow> store \<Rightarrow> ui_error + store" where
  "distributeRecord env recordId st =
     (if \<not> provider_connected env then Inl Wallet_not_connected
      else if \<not> contract_with_signer env then Inl No_contract
      else if \<not> getData_succeeds env then Inl GetData_failed
      else
        (case st (''aid_'' @ recordId) of
           None \<Rightarrow> Inl Record_not_found
         | Some Unreadable \<Rightarrow> Inl Parse_failed
         | Some (Record_json recordData) \<Rightarrow>
             let updatedRecord = recordData\<lparr>status := distributed\<rparr>
             in if \<not> setData_succeeds env then Inl SetData_failed
                else Inr (st(''aid_'' @ recordId \<mapsto> Record_json updatedRecord))))"

text \<open>
  The buttons a row of the record table shows besides \<open>Details\<close>:
  \<^verbatim>\<open>{record.status === "pending" && (<button ... approveRecord(record.id)>)}\<close> and
  \<^verbatim>\<open>{record.status === "approved" && (<button ... distributeRecord(record.id)>)}\<close>.
\<close>

datatype row_button = Approve | Distribute

definition row_buttons :: "AidRecord \<Rightarrow> row_button list" where
  "row_buttons r =
     (if status r = pending then [Approve] else []) @
     (if status r = approved then [Distribute] else [])"

section \<open>The specification's formulas\<close>

text \<open>
  The specification's scoring formulas, written from its words:
  \<open>eligibility = min(100, 50\<sqdot>[len(identity) > 10] + 50\<sqdot>[len(needs) > 5])\<close> and
  \<open>priority = 100 \<sqdot> (count of positions i < min(len(needs), len(resources)) with
  needs[i] = resources[i]) / max(1, len(needs))\<close>.
\<close>

definition spec_match_count :: "string \<Rightarrow> string \<Rightarrow> nat" where
  "spec_match_count needs' resources =
     length (filter (\<lambda>(a, b). a = b) (zip needs' resources))"

definition spec_eligibility :: "string \<Rightarrow> string \<Rightarrow> nat" where
  "spec_eligibility identity needs' =
     min 100 ((if length identity > 10 then 50 else 0) + (if length needs' > 5 then 50 else 0))"

definition spec_priority :: "string \<Rightarrow> string \<Rightarrow> nat" where
  "spec_priority needs' resources =
     100 * spec_match_count needs' resources div max 1 (length needs')"

text \<open>
  The specification's access gate, written from its words: the operation consults an
  authorization decision first and returns \<open>Unauthorized\<close> on denial, with no state
  change.
\<close>

datatype 'a gated = Unauthorized | Permitted 'a

definition spec_access_gate :: "bool \<Rightarrow> ('s \<Rightarrow> 'r) \<Rightarrow> 's \<Rightarrow> 'r gated" where
  "spec_access_gate authorized body s = (if authorized then Permitted (body s) else Unauthorized)"

section \<open>Invariants of the reachable states\<close>

text \<open>
  The invariant of the record table: the identifiers announced so far are 1 up to the
  counter, the slots outside 1 up to the counter are unwritten, and each slot inside
  holds its own key.
\<close>

definition refugees_inv :: "state \<Rightarrow> bool" where
  "refugees_inv s =
     (registered_ids (events s) = [1..<Suc (refugeeCount s)] \<and>
      (\<forall>i. i = 0 \<or> refugeeCount s < i \<longrightarrow> encryptedRefugees s i = zero_refugee) \<and>
      (\<forall>i. 1 \<le> i \<and> i \<le> refugeeCount s \<longrightarrow> refugeeId (encryptedRefugees s i) = i))"

text \<open>
  The slots of the verification table outside 1 up to the counter are unwritten, and
  each slot inside holds its own key.
\<close>

definition verifications_inv :: "state \<Rightarrow> bool" where
  "verifications_inv s =
     ((\<forall>i. i = 0 \<or> verificationCount s < i \<longrightarrow>
          encryptedVerifications s i = zero_verification) \<and>
      (\<forall>i. 1 \<le> i \<and> i \<le> verificationCount s \<longrightarrow>
          verificationId (encryptedVerifications s i) = i))"

text \<open>
  A registered request id is the id of an accepted request.
\<close>

definition ids_inv :: "state \<Rightarrow> bool" where
  "ids_inv s =
     (\<forall>q. requestToRefugeeId s q \<noteq> 0 \<or> verificationRequestToId s q \<noteq> 0 \<longrightarrow>
          q \<in> requested_ids s)"

text \<open>
  Reveal requests and revealed results belong to identifiers 1 up to the counter.
\<close>

definition reveals_inv :: "state \<Rightarrow> bool" where
  "reveals_inv s =
     ((\<forall>q. verificationRequestToId s q \<le> verificationCount s) \<and>
      (\<forall>i. isRevealed (decryptedResults s i) \<longrightarrow> 1 \<le> i \<and> i \<le> verificationCount s))"

section \<open>Example inputs\<close>

text \<open>
  The concrete calls used where a property is evaluated: agency 900 registers a
  record and creates a package, requests the verification of record 1 against
  package 1 (the library returns request id 7), the callback arrives with valid
  signatures, and the reveal of verification 1 is requested (request id 8).
\<close>

abbreviation example_register :: call where
  "example_register \<equiv> RegisterEncryptedRefugee 900 11 12 13 1000"

abbreviation example_package :: call where
  "example_package \<equiv> CreateAidPackage 900 21 22 1001"

abbreviation example_verify :: call where
  "example_verify \<equiv> VerifyEligibility 900 1 1 (Some 7)"

abbreviation example_cleartexts :: "(string \<times> string \<times> string) option" where
  "example_cleartexts \<equiv> Some (''refugee-id-001'', ''food,water'', ''food,water'')"

abbreviation example_perform :: call where
  "example_perform \<equiv> PerformVerification 7 True example_cleartexts 31 32 1002"

abbreviation example_reveal :: call where
  "example_reveal \<equiv> RequestVerificationResult 900 1 (Some 8)"

abbreviation example_decrypt :: call where
  "example_decrypt \<equiv> DecryptVerification 8 True (Some (100, 100))"

abbreviation example_requested :: "call list" where
  "example_requested \<equiv> [example_register, example_package, example_verify]"

abbreviation example_verified :: "call list" where
  "example_verified \<equiv> [example_register, example_package, example_verify, example_perform]"

abbreviation example_reveal_requested :: "call list" where
  "example_reveal_requested \<equiv>
     [example_register, example_package, example_verify, example_perform, example_reveal]"

abbreviation example_revealed :: "call list" where
  "example_revealed \<equiv>
     [example_register, example_package, example_verify, example_perform, example_reveal,
      example_decrypt]"

abbreviation example_record :: "record_status \<Rightarrow> AidRecord" where
  "example_record st \<equiv> \<lparr>data = ''FHE-x'', r_timestamp = 1000, owner = ''0xabc'',
     category = ''food'', status = st, amount = 3, location = ''camp'',
     needs = [''water'']\<rparr>"

abbreviation example_env :: ui_env where
  "example_env \<equiv> \<lparr>account = ''0xabc'', provider_connected = True,
     contract_with_signer = True, getData_succeeds = True, setData_succeeds = True\<rparr>"

section \<open>Properties\<close>

subsection \<open>Scoring\<close>

text \<open>
  The count of the specification is the number of indices below both lengths at which
  the two strings agree; the loop of the contract computes it unless the \<open>uint32\<close>
  counter overflows.
\<close>

lemma spec_match_count_card:
  "spec_match_count xs ys = card {i. i < min (length xs) (length ys) \<and> xs ! i = ys ! i}"
proof -
  have "{i. i < length (zip xs ys) \<and> (case zip xs ys ! i of (a, b) \<Rightarrow> a = b)}
        = {i. i < min (length xs) (length ys) \<and> xs ! i = ys ! i}"
    by auto
  then show ?thesis
    by (simp add: spec_match_count_def length_filter_conv_card)
qed

lemma calculatePriority_loop_count:
  "m \<le> MAX_UINT32 \<Longrightarrow> calculatePriority_loop xs ys i m =
     (if m + length (filter (\<lambda>(a, b). a = b) (drop i (zip xs ys))) \<le> MAX_UINT32
      then Inr (m + length (filter (\<lambda>(a, b). a = b) (drop i (zip xs ys))))
      else Inl Panic_overflow)"
proof (induction xs ys i m rule: calculatePriority_loop.induct)
  case (1 xs ys i m)
  note m = \<open>m \<le> MAX_UINT32\<close>
  show ?case
  proof (cases "i < length xs \<and> i < length ys")
    case False
    then have "drop i (zip xs ys) = []" by auto
    with False m show ?thesis
      by (subst calculatePriority_loop.simps) auto
  next
    case True
    then have d: "drop i (zip xs ys) = (xs ! i, ys ! i) # drop (i + 1) (zip xs ys)"
      using Cons_nth_drop_Suc [of i "zip xs ys"] by simp
    show ?thesis
    proof (cases "xs ! i = ys ! i")
      case eq: True
      show ?thesis
      proof (cases "m + 1 > MAX_UINT32")
        case True
        with \<open>i < length xs \<and> i < length ys\<close> eq d show ?thesis
          by (subst calculatePriority_loop.simps) simp
      next
        case False
        then have "m + 1 \<le> MAX_UINT32" by simp
        from "1.IH"(1) [OF \<open>i < length xs \<and> i < length ys\<close> eq False this]
          \<open>i < length xs \<and> i < length ys\<close> eq d False
        show ?thesis
          by (subst calculatePriority_loop.simps) simp
      qed
    next
      case False
      from "1.IH"(2) [OF \<open>i < length xs \<and> i < length ys\<close> False m]
        \<open>i < length xs \<and> i < length ys\<close> d False
      show ?thesis
        by (subst calculatePriority_loop.simps) simp
    qed
  qed
qed

lemma calculatePriority_loop_start:
  "calculatePriority_loop needs' resources 0 0 =
     (if spec_match_count needs' resources \<le> MAX_UINT32
      then Inr (spec_match_count needs' resources) else Inl Panic_overflow)"
  using calculatePriority_loop_count [of 0 needs' resources 0]
  by (simp add: spec_match_count_def)

lemma calculatePriority_char:
  "calculatePriority needs' resources =
     (if spec_match_count needs' resources * 100 > MAX_UINT32 then Inl Panic_overflow
      else if max 1 (length needs') mod 2 ^ 32 = 0 then Inl Panic_division_by_zero
      else Inr (spec_match_count needs' resources * 100 div (max 1 (length needs') mod 2 ^ 32)))"
proof -
  have "(if length needs' > 0 then length needs' else 1) = max 1 (length needs')"
    by (cases needs') simp_all
  then show ?thesis
    unfolding calculatePriority_def calculatePriority_loop_start
    by (simp add: Let_def)
qed

lemma calculateEligibility_spec:
  "calculateEligibility identity needs' = spec_eligibility identity needs'"
  by (simp add: calculateEligibility_def spec_eligibility_def Let_def)

lemma spec_match_count_replicate:
  "spec_match_count (replicate n c) (replicate n c) = n"
  by (simp add: spec_match_count_def zip_replicate)

text \<open>
  Claim C6, as amended. \<open>calculateEligibility\<close> is the specification's formula on every
  input. \<open>calculatePriority\<close> returns the specification's formula whenever 100 times the
  number of matching positions and the length of \<open>needs\<close> fit in a \<open>uint32\<close>; when the
  product exceeds \<open>2^32 - 1\<close> the call reverts with an overflow panic. An identity of
  length 11 with needs of length 6 scores 100, an identity of length 5 with needs of
  length 6 scores 50, and needs "abcde" against resources "abxde" has priority 80.
\<close>

theorem C6_scoring_formulas:
  "calculateEligibility identity needs' = spec_eligibility identity needs' \<and>
   (100 * spec_match_count needs' resources \<le> MAX_UINT32 \<and> length needs' \<le> MAX_UINT32 \<longrightarrow>
      calculatePriority needs' resources = Inr (spec_priority needs' resources)) \<and>
   (100 * spec_match_count needs' resources > MAX_UINT32 \<longrightarrow>
      calculatePriority needs' resources = Inl Panic_overflow) \<and>
   (length identity = 11 \<and> length needs' = 6 \<longrightarrow> calculateEligibility identity needs' = 100) \<and>
   (length identity = 5 \<and> length needs' = 6 \<longrightarrow> calculateEligibility identity needs' = 50) \<and>
   calculatePriority ''abcde'' ''abxde'' = Inr 80"
proof -
  have 1: "calculateEligibility identity needs' = spec_eligibility identity needs'"
    by (rule calculateEligibility_spec)
  have 2: "calculatePriority needs' resources = Inr (spec_priority needs' resources)"
    if "100 * spec_match_count needs' resources \<le> MAX_UINT32" and "length needs' \<le> MAX_UINT32"
  proof -
    have "max 1 (length needs') < 2 ^ 32"
      using that(2) by (simp add: MAX_UINT32_def)
    then have "max 1 (length needs') mod 2 ^ 32 = max 1 (length needs')"
      by simp
    moreover have "max 1 (length needs') \<noteq> 0" by simp
    ultimately show ?thesis
      using that(1) by (simp add: calculatePriority_char spec_priority_def mult.commute)
  qed
  have 3: "calculatePriority needs' resources = Inl Panic_overflow"
    if "100 * spec_match_count needs' resources > MAX_UINT32"
    using that by (simp add: calculatePriority_char mult.commute)
  have 4: "calculateEligibility identity needs' = 100"
    if "length identity = 11 \<and> length needs' = 6"
    using that by (simp add: calculateEligibility_def)
  have 5: "calculateEligibility identity needs' = 50"
    if "length identity = 5 \<and> length needs' = 6"
    using that by (simp add: calculateEligibility_def)
  have 6: "calculatePriority ''abcde'' ''abxde'' = Inr 80"
    by (simp add: calculatePriority_char spec_match_count_def MAX_UINT32_def)
  from 1 2 3 4 5 6 show ?thesis by blast
qed

theorem C6_scoring_formulas_witness:
  "calculateEligibility ''refugee-id-001'' ''food,water'' = 100 \<and>
   calculatePriority ''food,water'' ''food,water'' = Inr 100 \<and>
   calculatePriority (replicate 42949673 (CHR ''a'')) (replicate 42949673 (CHR ''a''))
     = Inl Panic_overflow \<and>
   calculateEligibility ''12345678901'' ''123456'' = 100 \<and>
   calculateEligibility ''12345'' ''123456'' = 50"
  using C6_scoring_formulas [of "''refugee-id-001''" "''food,water''" "''food,water''"]
    C6_scoring_formulas [of "''12345678901''" "replicate 42949673 (CHR ''a'')"
      "replicate 42949673 (CHR ''a'')"]
    C6_scoring_formulas [of "''12345678901''" "''123456''" "[]"]
    C6_scoring_formulas [of "''12345''" "''123456''" "[]"]
  by (simp add: spec_eligibility_def spec_priority_def spec_match_count_def
      spec_match_count_replicate MAX_UINT32_def zip_replicate)

text \<open>
  Claim C6 as stated fails on long inputs: with 42949673 matching positions the product
  \<open>matches * 100\<close> exceeds \<open>2^32 - 1\<close> and the call reverts, so no priority is returned.
\<close>

theorem C6_priority_overflow_counterexample:
  "calculatePriority (replicate 42949673 (CHR ''a'')) (replicate 42949673 (CHR ''a''))
     \<noteq> Inr (spec_priority (replicate 42949673 (CHR ''a'')) (replicate 42949673 (CHR ''a'')))"
  by (simp add: calculatePriority_char spec_match_count_replicate MAX_UINT32_def)

subsection \<open>When the functions succeed, and with which state\<close>

lemma registerEncryptedRefugee_Inr:
  "registerEncryptedRefugee x a b c t s = Inr s' \<longleftrightarrow>
     refugeeCount s + 1 \<le> MAX_UINT256 \<and>
     s' = s\<lparr>refugeeCount := refugeeCount s + 1,
            encryptedRefugees := (encryptedRefugees s)(refugeeCount s + 1 :=
              \<lparr>refugeeId = refugeeCount s + 1, encryptedIdentity = a,
               encryptedLocation = b, encryptedNeeds = c, timestamp = t\<rparr>),
            events := events s @ [RefugeeRegistered (refugeeCount s + 1) t]\<rparr>"
  unfolding registerEncryptedRefugee_def onlyAgency_def Let_def
  by (cases "refugeeCount s + 1 > MAX_UINT256") (simp_all add: eq_commute)

lemma createAidPackage_Inr:
  "createAidPackage x a b t s = Inr s' \<longleftrightarrow>
     packageCount s + 1 \<le> MAX_UINT256 \<and>
     s' = s\<lparr>packageCount := packageCount s + 1,
            encryptedPackages := (encryptedPackages s)(packageCount s + 1 :=
              \<lparr>packageId = packageCount s + 1, encryptedResources = a,
               encryptedQuantities = b, p_timestamp = t\<rparr>),
            events := events s @ [AidPackageCreated (packageCount s + 1) t]\<rparr>"
  unfolding createAidPackage_def onlyAgency_def Let_def
  by (cases "packageCount s + 1 > MAX_UINT256") (simp_all add: eq_commute)

lemma verifyEligibility_Inr:
  "verifyEligibility x r p requested s = Inr s' \<longleftrightarrow>
     (\<exists>q. requested = Some q \<and>
        s' = s\<lparr>requestToRefugeeId := (requestToRefugeeId s)(q := r),
               events := events s @ [VerificationRequested q r],
               oracleRequests := oracleRequests s @
                 [(q, [encryptedIdentity (encryptedRefugees s r),
                       encryptedNeeds (encryptedRefugees s r),
                       encryptedResources (encryptedPackages s p)],
                   performVerification_selector)]\<rparr>)"
  unfolding verifyEligibility_def onlyAgency_def Let_def
  by (cases requested) auto

lemma performVerification_Inr:
  "performVerification q v d hE hP t s = Inr s' \<longleftrightarrow>
     (\<exists>identity needs' resources pr.
        requestToRefugeeId s q \<noteq> 0 \<and> v \<and> d = Some (identity, needs', resources) \<and>
        verificationCount s + 1 \<le> MAX_UINT256 \<and>
        calculatePriority needs' resources = Inr pr \<and>
        s' = s\<lparr>verificationCount := verificationCount s + 1,
               encryptedVerifications := (encryptedVerifications s)(verificationCount s + 1 :=
                 \<lparr>verificationId = verificationCount s + 1,
                  encryptedEligibility = hE, encryptedPriority = hP,
                  v_refugeeId = requestToRefugeeId s q, v_packageId = 0, verifiedAt = t\<rparr>),
               decryptedResults := (decryptedResults s)(verificationCount s + 1 :=
                 \<lparr>eligibility = calculateEligibility identity needs', priority = pr,
                  isRevealed = False\<rparr>),
               events := events s @ [VerificationCompleted (verificationCount s + 1)]\<rparr>)"
proof (cases "requestToRefugeeId s q = 0 \<or> \<not> v")
  case True
  then show ?thesis
    by (auto simp: performVerification_def Let_def)
next
  case False
  show ?thesis
  proof (cases d)
    case None
    with False show ?thesis
      by (simp add: performVerification_def Let_def)
  next
    case (Some triple)
    obtain identity needs' resources where triple: "triple = (identity, needs', resources)"
      by (cases triple)
    show ?thesis
    proof (cases "verificationCount s + 1 > MAX_UINT256")
      case True
      with False Some triple show ?thesis
        by (simp add: performVerification_def Let_def)
    next
      case le: False
      show ?thesis
      proof (cases "calculatePriority needs' resources")
        case (Inl e)
        with False Some triple le show ?thesis
          by (simp add: performVerification_def Let_def)
      next
        case (Inr pr)
        with False Some triple le show ?thesis
          by (auto simp: performVerification_def Let_def)
      qed
    qed
  qed
qed

lemma requestVerificationResult_Inr:
  "requestVerificationResult x vid requested s = Inr s' \<longleftrightarrow>
     (\<exists>q. \<not> isRevealed (decryptedResults s vid) \<and> requested = Some q \<and>
        s' = s\<lparr>verificationRequestToId := (verificationRequestToId s)(q := vid),
               oracleRequests := oracleRequests s @
                 [(q, [encryptedEligibility (encryptedVerifications s vid),
                       encryptedPriority (encryptedVerifications s vid)],
                   decryptVerification_selector)]\<rparr>)"
  unfolding requestVerificationResult_def onlyAgency_def Let_def
  by (cases requested; cases "isRevealed (decryptedResults s vid)") auto

lemma decryptVerification_Inr:
  "decryptVerification q v d s = Inr s' \<longleftrightarrow>
     (\<exists>e p. verificationRequestToId s q \<noteq> 0 \<and>
        \<not> isRevealed (decryptedResults s (verificationRequestToId s q)) \<and> v \<and>
        d = Some (e, p) \<and> e \<le> MAX_UINT32 \<and> p \<le> MAX_UINT32 \<and>
        s' = s\<lparr>decryptedResults := (decryptedResults s)(verificationRequestToId s q :=
                 (decryptedResults s (verificationRequestToId s q))
                   \<lparr>eligibility := e, priority := p, isRevealed := True\<rparr>),
               events := events s @ [ResultDecrypted (verificationRequestToId s q)]\<rparr>)"
proof (cases "verificationRequestToId s q = 0 \<or>
    isRevealed (decryptedResults s (verificationRequestToId s q)) \<or> \<not> v")
  case True
  then show ?thesis
    by (auto simp: decryptVerification_def Let_def)
next
  case False
  show ?thesis
  proof (cases d)
    case None
    with False show ?thesis
      by (simp add: decryptVerification_def Let_def)
  next
    case (Some pair)
    obtain e p where pair: "pair = (e, p)"
      by (cases pair)
    show ?thesis
    proof (cases "e > MAX_UINT32 \<or> p > MAX_UINT32")
      case True
      with False Some pair show ?thesis
        by (auto simp: decryptVerification_def Let_def)
    next
      case le: False
      with False Some pair show ?thesis
        by (auto simp: decryptVerification_def Let_def not_less)
    qed
  qed
qed

text \<open>Every definition a transaction unfolds to, for evaluating concrete runs.\<close>

lemmas exec_defs = transact_def registerEncryptedRefugee_def createAidPackage_def
  verifyEligibility_def performVerification_def requestVerificationResult_def
  decryptVerification_def onlyAgency_def Let_def MAX_UINT256_def MAX_UINT32_def

lemmas library_defs = library_ok_def requested_ids_def

lemma run_append: "run (cs @ ds) s = run ds (run cs s)"
  by (induction cs arbitrary: s) simp_all

lemma runs_ok_append: "runs_ok (cs @ ds) s = (runs_ok cs s \<and> runs_ok ds (run cs s))"
  by (induction cs arbitrary: s) simp_all

lemma transact_Inr: "exec c s = Inr s' \<Longrightarrow> transact c s = s'"
  by (simp add: transact_def)

lemma transact_Inl: "exec c s = Inl e \<Longrightarrow> transact c s = s"
  by (simp add: transact_def)

lemma run_example_performed:
  "calculatePriority ''food,water'' ''food,water'' = Inr 100"
  by (simp add: calculatePriority_char spec_match_count_def MAX_UINT32_def)

subsection \<open>Record identifiers\<close>

lemma registered_ids_append:
  "registered_ids (es @ fs) = registered_ids es @ registered_ids fs"
  by (induction es rule: registered_ids.induct) simp_all

lemma refugees_inv_init: "refugees_inv init_state"
  by (simp add: refugees_inv_def init_state_def)

lemma refugees_inv_register:
  assumes "refugees_inv s" and "registerEncryptedRefugee x a b c t s = Inr s'"
  shows "refugees_inv s'"
proof -
  from assms(2) have s': "s' = s\<lparr>refugeeCount := refugeeCount s + 1,
      encryptedRefugees := (encryptedRefugees s)(refugeeCount s + 1 :=
        \<lparr>refugeeId = refugeeCount s + 1, encryptedIdentity = a, encryptedLocation = b,
         encryptedNeeds = c, timestamp = t\<rparr>),
      events := events s @ [RefugeeRegistered (refugeeCount s + 1) t]\<rparr>"
    by (simp add: registerEncryptedRefugee_Inr)
  from assms(1) have ids: "registered_ids (events s) = [1..<Suc (refugeeCount s)]"
    and zero: "\<And>i. i = 0 \<or> refugeeCount s < i \<Longrightarrow> encryptedRefugees s i = zero_refugee"
    and key: "\<And>i. 1 \<le> i \<and> i \<le> refugeeCount s \<Longrightarrow> refugeeId (encryptedRefugees s i) = i"
    unfolding refugees_inv_def by blast+
  have "registered_ids (events s') = [1..<Suc (refugeeCount s')]"
    by (simp add: s' registered_ids_append ids)
  moreover have "encryptedRefugees s' i = zero_refugee" if "i = 0 \<or> refugeeCount s' < i" for i
    using that zero [of i] by (auto simp: s')
  moreover have "refugeeId (encryptedRefugees s' i) = i" if "1 \<le> i \<and> i \<le> refugeeCount s'" for i
    using that key [of i] by (auto simp: s')
  ultimately show ?thesis
    unfolding refugees_inv_def by blast
qed

lemma refugees_inv_other:
  assumes "refugees_inv s" "refugeeCount s' = refugeeCount s"
    "encryptedRefugees s' = encryptedRefugees s"
    "registered_ids (events s') = registered_ids (events s)"
  shows "refugees_inv s'"
  using assms unfolding refugees_inv_def by simp

lemma refugees_inv_exec:
  assumes "refugees_inv s" and "exec c s = Inr s'"
  shows "refugees_inv s'"
proof (cases c)
  case (RegisterEncryptedRefugee x a b c t)
  with assms show ?thesis by (simp add: refugees_inv_register)
next
  case (CreateAidPackage x a b t)
  with assms(2) show ?thesis
    by (intro refugees_inv_other [OF assms(1)])
      (simp_all add: createAidPackage_Inr registered_ids_append)
next
  case (VerifyEligibility x r p q)
  with assms(2) show ?thesis
    by (intro refugees_inv_other [OF assms(1)])
      (auto simp: verifyEligibility_Inr registered_ids_append)
next
  case (PerformVerification q v d hE hP t)
  with assms(2) show ?thesis
    by (intro refugees_inv_other [OF assms(1)])
      (auto simp: performVerification_Inr registered_ids_append)
next
  case (RequestVerificationResult x v q)
  with assms(2) show ?thesis
    by (intro refugees_inv_other [OF assms(1)])
      (auto simp: requestVerificationResult_Inr)
next
  case (DecryptVerification q v d)
  with assms(2) show ?thesis
    by (intro refugees_inv_other [OF assms(1)])
      (auto simp: decryptVerification_Inr registered_ids_append)
qed

lemma refugees_inv_transact: "refugees_inv s \<Longrightarrow> refugees_inv (transact c s)"
  by (cases "exec c s") (simp_all add: transact_def refugees_inv_exec)

lemma refugees_inv_run: "refugees_inv s \<Longrightarrow> refugees_inv (run cs s)"
  by (induction cs arbitrary: s) (simp_all add: refugees_inv_transact)

lemma refugees_inv_exists:
  assumes "refugees_inv s"
  shows "refugee_exists s i \<longleftrightarrow> 1 \<le> i \<and> i \<le> refugeeCount s"
proof
  assume "refugee_exists s i"
  then have "encryptedRefugees s i \<noteq> zero_refugee"
    by (simp add: refugee_exists_def)
  with assms have "\<not> (i = 0 \<or> refugeeCount s < i)"
    unfolding refugees_inv_def by blast
  then show "1 \<le> i \<and> i \<le> refugeeCount s" by simp
next
  assume "1 \<le> i \<and> i \<le> refugeeCount s"
  with assms have "refugeeId (encryptedRefugees s i) = i" and "i \<noteq> 0"
    unfolding refugees_inv_def by auto
  then show "refugee_exists s i"
    by (auto simp: refugee_exists_def zero_refugee_def)
qed

text \<open>
  Claim C8. After any sequence of transactions on a freshly deployed contract, and so
  after any sequence of \<open>registerEncryptedRefugee\<close> calls, the identifiers assigned so
  far are 1, 2, ... up to \<open>refugeeCount\<close> in this order, hence pairwise distinct and
  never reused; the keys under which a record is stored are exactly 1 up to
  \<open>refugeeCount\<close>, so their number is \<open>refugeeCount\<close>; and each stored record carries
  its key as \<open>refugeeId\<close>.
\<close>

theorem C8_record_ids_unique:
  "registered_ids (events (run cs init_state)) = [1..<Suc (refugeeCount (run cs init_state))] \<and>
   distinct (registered_ids (events (run cs init_state))) \<and>
   {i. refugee_exists (run cs init_state) i} = {1..refugeeCount (run cs init_state)} \<and>
   card {i. refugee_exists (run cs init_state) i} = refugeeCount (run cs init_state) \<and>
   (\<forall>i. refugee_exists (run cs init_state) i \<longrightarrow>
      refugeeId (encryptedRefugees (run cs init_state) i) = i)"
proof -
  define s where "s = run cs init_state"
  have inv: "refugees_inv s"
    unfolding s_def by (rule refugees_inv_run [OF refugees_inv_init])
  then have ids: "registered_ids (events s) = [1..<Suc (refugeeCount s)]"
    by (simp add: refugees_inv_def)
  have ex: "{i. refugee_exists s i} = {1..refugeeCount s}"
    by (simp add: set_eq_iff refugees_inv_exists [OF inv])
  have key: "\<forall>i. refugee_exists s i \<longrightarrow> refugeeId (encryptedRefugees s i) = i"
  proof (intro allI impI)
    fix i assume "refugee_exists s i"
    then have "1 \<le> i \<and> i \<le> refugeeCount s"
      by (simp add: refugees_inv_exists [OF inv])
    with inv show "refugeeId (encryptedRefugees s i) = i"
      unfolding refugees_inv_def by blast
  qed
  have dist: "distinct (registered_ids (events s))"
    by (simp add: ids)
  have card: "card {i. refugee_exists s i} = refugeeCount s"
    by (simp add: ex)
  from ids dist ex card key show ?thesis
    unfolding s_def by (intro conjI)
qed

theorem C8_record_ids_unique_witness:
  "refugeeCount (run [example_register, example_package,
      RegisterEncryptedRefugee 901 14 15 16 1002] init_state) = 2 \<and>
   registered_ids (events (run [example_register, example_package,
      RegisterEncryptedRefugee 901 14 15 16 1002] init_state)) = [1, 2] \<and>
   {i. refugee_exists (run [example_register, example_package,
      RegisterEncryptedRefugee 901 14 15 16 1002] init_state) i} = {1..2} \<and>
   card {i. refugee_exists (run [example_register, example_package,
      RegisterEncryptedRefugee 901 14 15 16 1002] init_state) i} = 2 \<and>
   refugeeId (encryptedRefugees (run [example_register, example_package,
      RegisterEncryptedRefugee 901 14 15 16 1002] init_state) 2) = 2"
proof -
  have ex: "refugee_exists (run [example_register, example_package,
      RegisterEncryptedRefugee 901 14 15 16 1002] init_state) 2"
    by (simp add: exec_defs init_state_def refugee_exists_def zero_refugee_def)
  have count: "refugeeCount (run [example_register, example_package,
      RegisterEncryptedRefugee 901 14 15 16 1002] init_state) = 2"
    by (simp add: exec_defs init_state_def)
  have "[1..<Suc 2] = [1, 2]"
    by (simp add: upt_rec)
  with count ex show ?thesis
    using C8_record_ids_unique [of "[example_register, example_package,
      RegisterEncryptedRefugee 901 14 15 16 1002]"]
    by simp
qed

subsection \<open>Callbacks\<close>

lemma performVerification_rejected:
  "\<not> sigsValid \<Longrightarrow> performVerification q sigsValid d hE hP t s =
     Inl (if requestToRefugeeId s q = 0 then Invalid_request else Signatures_rejected)"
  by (simp add: performVerification_def Let_def)

lemma decryptVerification_rejected:
  "\<not> sigsValid \<Longrightarrow> decryptVerification q sigsValid d s =
     Inl (if verificationRequestToId s q = 0 then Invalid_request
          else if isRevealed (decryptedResults s (verificationRequestToId s q))
          then Already_decrypted else Signatures_rejected)"
  by (simp add: decryptVerification_def Let_def)

text \<open>
  Claim C7. A \<open>performVerification\<close> callback that reaches \<open>FHE.checkSignatures\<close> (its
  request id is registered) and fails it reverts with the signature error, and so does
  a \<open>decryptVerification\<close> callback that reaches the check (its request id is
  registered and the result is not yet revealed). On an invalid proof either callback
  reverts in every case and the transaction leaves the state as it was: no
  Verification is created and no DecryptedResult is written.
\<close>

theorem C7_invalid_proof_rejected:
  "(requestToRefugeeId s q \<noteq> 0 \<longrightarrow>
      performVerification q False d hE hP t s = Inl Signatures_rejected) \<and>
   (verificationRequestToId s q \<noteq> 0 \<and>
    \<not> isRevealed (decryptedResults s (verificationRequestToId s q)) \<longrightarrow>
      decryptVerification q False d' s = Inl Signatures_rejected) \<and>
   isl (performVerification q False d hE hP t s) \<and>
   isl (decryptVerification q False d' s) \<and>
   transact (PerformVerification q False d hE hP t) s = s \<and>
   transact (DecryptVerification q False d') s = s"
proof -
  have pv: "performVerification q False d hE hP t s =
      Inl (if requestToRefugeeId s q = 0 then Invalid_request else Signatures_rejected)"
    by (rule performVerification_rejected) simp
  have dv: "decryptVerification q False d' s =
      Inl (if verificationRequestToId s q = 0 then Invalid_request
           else if isRevealed (decryptedResults s (verificationRequestToId s q))
           then Already_decrypted else Signatures_rejected)"
    by (rule decryptVerification_rejected) simp
  from pv have "transact (PerformVerification q False d hE hP t) s = s"
    by (simp add: transact_def)
  moreover from dv have "transact (DecryptVerification q False d') s = s"
    by (simp add: transact_def)
  moreover from pv have "requestToRefugeeId s q \<noteq> 0 \<longrightarrow>
      performVerification q False d hE hP t s = Inl Signatures_rejected"
    by simp
  moreover from dv have "verificationRequestToId s q \<noteq> 0 \<and>
    \<not> isRevealed (decryptedResults s (verificationRequestToId s q)) \<longrightarrow>
      decryptVerification q False d' s = Inl Signatures_rejected"
    by simp
  moreover from pv dv have "isl (performVerification q False d hE hP t s)"
    and "isl (decryptVerification q False d' s)"
    by simp_all
  ultimately show ?thesis
    by (intro conjI)
qed

theorem C7_invalid_proof_rejected_witness:
  "performVerification 7 False example_cleartexts 31 32 1002
     (run [example_register, example_package, example_verify] init_state)
     = Inl Signatures_rejected \<and>
   decryptVerification 8 False (Some (100, 100))
     (run [example_register, example_package, example_verify, example_perform,
           example_reveal] init_state)
     = Inl Signatures_rejected \<and>
   transact (PerformVerification 7 False example_cleartexts 31 32 1002)
     (run [example_register, example_package, example_verify] init_state)
     = run [example_register, example_package, example_verify] init_state \<and>
   runs_ok [example_register, example_package, example_verify, example_perform,
            example_reveal] init_state"
proof -
  have 1: "requestToRefugeeId
      (run [example_register, example_package, example_verify] init_state) 7 \<noteq> 0"
    by (simp add: exec_defs init_state_def)
  have 2: "verificationRequestToId
      (run [example_register, example_package, example_verify, example_perform,
            example_reveal] init_state) 8 = 1"
    by (simp add: exec_defs init_state_def run_example_performed)
  have 3: "\<not> isRevealed (decryptedResults
      (run [example_register, example_package, example_verify, example_perform,
            example_reveal] init_state) 1)"
    by (simp add: exec_defs init_state_def run_example_performed)
  have 4: "runs_ok [example_register, example_package, example_verify, example_perform,
            example_reveal] init_state"
    by (simp add: exec_defs library_defs init_state_def run_example_performed)
  show ?thesis
    using 1 2 3 4
      C7_invalid_proof_rejected [of
        "run [example_register, example_package, example_verify] init_state" 7
        example_cleartexts 31 32 1002 "Some (100, 100)"]
      C7_invalid_proof_rejected [of
        "run [example_register, example_package, example_verify, example_perform,
              example_reveal] init_state" 8
        example_cleartexts 31 32 1002 "Some (100, 100)"]
    by simp
qed

text \<open>
  Claim C9. A successful \<open>performVerification\<close> creates exactly one Verification, under
  the next identifier, and its \<open>packageId\<close> is 0; in particular the Verification that
  answers \<open>verifyEligibility(refugeeId, packageId)\<close> keeps the \<open>refugeeId\<close> and stores
  0 whatever \<open>packageId\<close> was.
\<close>

theorem C9_verification_packageId_zero:
  "(performVerification q v d hE hP t s = Inr s' \<longrightarrow>
      verificationCount s' = verificationCount s + 1 \<and>
      verificationId (encryptedVerifications s' (verificationCount s')) = verificationCount s' \<and>
      v_packageId (encryptedVerifications s' (verificationCount s')) = 0 \<and>
      (\<forall>i. i \<noteq> verificationCount s' \<longrightarrow>
         encryptedVerifications s' i = encryptedVerifications s i)) \<and>
   (verifyEligibility x r p (Some q) s = Inr s1 \<and>
    performVerification q v d hE hP t s1 = Inr s2 \<longrightarrow>
      v_refugeeId (encryptedVerifications s2 (verificationCount s2)) = r \<and>
      v_packageId (encryptedVerifications s2 (verificationCount s2)) = 0)"
proof (intro conjI impI)
  assume "performVerification q v d hE hP t s = Inr s'"
  then obtain identity needs' resources pr where
    s': "s' = s\<lparr>verificationCount := verificationCount s + 1,
               encryptedVerifications := (encryptedVerifications s)(verificationCount s + 1 :=
                 \<lparr>verificationId = verificationCount s + 1,
                  encryptedEligibility = hE, encryptedPriority = hP,
                  v_refugeeId = requestToRefugeeId s q, v_packageId = 0, verifiedAt = t\<rparr>),
               decryptedResults := (decryptedResults s)(verificationCount s + 1 :=
                 \<lparr>eligibility = calculateEligibility identity needs', priority = pr,
                  isRevealed = False\<rparr>),
               events := events s @ [VerificationCompleted (verificationCount s + 1)]\<rparr>"
    unfolding performVerification_Inr by blast
  show "verificationCount s' = verificationCount s + 1"
    by (simp add: s')
  show "verificationId (encryptedVerifications s' (verificationCount s')) = verificationCount s'"
    by (simp add: s')
  show "v_packageId (encryptedVerifications s' (verificationCount s')) = 0"
    by (simp add: s')
  show "\<forall>i. i \<noteq> verificationCount s' \<longrightarrow> encryptedVerifications s' i = encryptedVerifications s i"
    by (simp add: s')
next
  assume a: "verifyEligibility x r p (Some q) s = Inr s1 \<and>
    performVerification q v d hE hP t s1 = Inr s2"
  then have r: "requestToRefugeeId s1 q = r"
    by (simp add: verifyEligibility_Inr)
  from a obtain identity needs' resources pr where
    s2: "s2 = s1\<lparr>verificationCount := verificationCount s1 + 1,
               encryptedVerifications := (encryptedVerifications s1)(verificationCount s1 + 1 :=
                 \<lparr>verificationId = verificationCount s1 + 1,
                  encryptedEligibility = hE, encryptedPriority = hP,
                  v_refugeeId = requestToRefugeeId s1 q, v_packageId = 0, verifiedAt = t\<rparr>),
               decryptedResults := (decryptedResults s1)(verificationCount s1 + 1 :=
                 \<lparr>eligibility = calculateEligibility identity needs', priority = pr,
                  isRevealed = False\<rparr>),
               events := events s1 @ [VerificationCompleted (verificationCount s1 + 1)]\<rparr>"
    unfolding performVerification_Inr by blast
  show "v_refugeeId (encryptedVerifications s2 (verificationCount s2)) = r"
    by (simp add: s2 r)
  show "v_packageId (encryptedVerifications s2 (verificationCount s2)) = 0"
    by (simp add: s2)
qed

theorem C9_verification_packageId_zero_witness:
  "verificationCount (run [example_register, example_package, example_verify,
      example_perform] init_state) = 1 \<and>
   v_refugeeId (encryptedVerifications (run [example_register, example_package,
      example_verify, example_perform] init_state) 1) = 1 \<and>
   v_packageId (encryptedVerifications (run [example_register, example_package,
      example_verify, example_perform] init_state) 1) = 0 \<and>
   runs_ok [example_register, example_package, example_verify, example_perform] init_state"
proof -
  have 1: "verifyEligibility 900 1 1 (Some 7)
      (run [example_register, example_package] init_state)
    = Inr (run [example_register, example_package, example_verify] init_state)"
    by (simp add: exec_defs init_state_def)
  have 2: "performVerification 7 True example_cleartexts 31 32 1002
      (run [example_register, example_package, example_verify] init_state)
    = Inr (run [example_register, example_package, example_verify, example_perform]
        init_state)"
    by (simp add: exec_defs init_state_def run_example_performed)
  have 3: "verificationCount
      (run [example_register, example_package, example_verify] init_state) = 0"
    by (simp add: exec_defs init_state_def)
  have 4: "runs_ok [example_register, example_package, example_verify, example_perform]
      init_state"
    by (simp add: exec_defs library_defs init_state_def)
  note T1 = C9_verification_packageId_zero [where q = 7 and v = True
      and d = example_cleartexts and hE = 31 and hP = 32 and t = 1002
      and s = "run [example_register, example_package, example_verify] init_state"
      and s' = "run [example_register, example_package, example_verify, example_perform]
        init_state"]
  note T2 = C9_verification_packageId_zero [where q = 7 and v = True
      and d = example_cleartexts and hE = 31 and hP = 32 and t = 1002
      and x = 900 and r = 1 and p = 1
      and s = "run [example_register, example_package] init_state"
      and ?s1.0 = "run [example_register, example_package, example_verify] init_state"
      and ?s2.0 = "run [example_register, example_package, example_verify, example_perform]
        init_state"]
  from T1 [THEN conjunct1] 2 3
  have 5: "verificationCount (run [example_register, example_package, example_verify,
      example_perform] init_state) = 1"
    by simp
  from T2 [THEN conjunct2] 1 2
  have "v_refugeeId (encryptedVerifications (run [example_register, example_package,
      example_verify, example_perform] init_state)
        (verificationCount (run [example_register, example_package, example_verify,
      example_perform] init_state))) = 1 \<and>
    v_packageId (encryptedVerifications (run [example_register, example_package,
      example_verify, example_perform] init_state)
        (verificationCount (run [example_register, example_package, example_verify,
      example_perform] init_state))) = 0"
    by blast
  with 4 5 show ?thesis
    by simp
qed

subsection \<open>Invariants of the request tables and of the reveals\<close>

lemma exec_oracleRequests:
  assumes "exec c s = Inr s'"
  shows "oracleRequests s' = oracleRequests s \<or>
    (\<exists>q sel. requested_of c = Some q \<and>
       oracleRequests s' = oracleRequests s @ [(q, submitted_handles c s, sel)])"
proof (cases c)
  case (RegisterEncryptedRefugee x a b c t)
  with assms show ?thesis by (simp add: registerEncryptedRefugee_Inr)
next
  case (CreateAidPackage x a b t)
  with assms show ?thesis by (simp add: createAidPackage_Inr)
next
  case (VerifyEligibility x r p q)
  with assms show ?thesis by (auto simp: verifyEligibility_Inr)
next
  case (PerformVerification q v d hE hP t)
  with assms show ?thesis by (auto simp: performVerification_Inr)
next
  case (RequestVerificationResult x v q)
  with assms show ?thesis by (auto simp: requestVerificationResult_Inr)
next
  case (DecryptVerification q v d)
  with assms show ?thesis by (auto simp: decryptVerification_Inr)
qed

lemma exec_tables:
  assumes "exec c s = Inr s'" and "requested_of c \<noteq> Some q"
  shows "requestToRefugeeId s' q = requestToRefugeeId s q \<and>
    verificationRequestToId s' q = verificationRequestToId s q"
proof (cases c)
  case (RegisterEncryptedRefugee x a b c t)
  with assms show ?thesis by (simp add: registerEncryptedRefugee_Inr)
next
  case (CreateAidPackage x a b t)
  with assms show ?thesis by (simp add: createAidPackage_Inr)
next
  case (VerifyEligibility x r p q)
  with assms show ?thesis by (auto simp: verifyEligibility_Inr)
next
  case (PerformVerification q v d hE hP t)
  with assms show ?thesis by (auto simp: performVerification_Inr)
next
  case (RequestVerificationResult x v q)
  with assms show ?thesis by (auto simp: requestVerificationResult_Inr)
next
  case (DecryptVerification q v d)
  with assms show ?thesis by (auto simp: decryptVerification_Inr)
qed

lemma exec_counts:
  assumes "exec c s = Inr s'"
  shows "verificationCount s \<le> verificationCount s'"
proof (cases c)
  case (RegisterEncryptedRefugee x a b c t)
  with assms show ?thesis by (simp add: registerEncryptedRefugee_Inr)
next
  case (CreateAidPackage x a b t)
  with assms show ?thesis by (simp add: createAidPackage_Inr)
next
  case (VerifyEligibility x r p q)
  with assms show ?thesis by (auto simp: verifyEligibility_Inr)
next
  case (PerformVerification q v d hE hP t)
  with assms show ?thesis by (auto simp: performVerification_Inr)
next
  case (RequestVerificationResult x v q)
  with assms show ?thesis by (auto simp: requestVerificationResult_Inr)
next
  case (DecryptVerification q v d)
  with assms show ?thesis by (auto simp: decryptVerification_Inr)
qed

lemma requested_ids_transact:
  "q \<in> requested_ids s \<Longrightarrow> q \<in> requested_ids (transact c s)"
proof (cases "exec c s")
  case (Inl e)
  assume "q \<in> requested_ids s"
  with Inl show ?thesis by (simp add: transact_def)
next
  case (Inr s')
  assume "q \<in> requested_ids s"
  with exec_oracleRequests [OF Inr] show ?thesis
    unfolding transact_Inr [OF Inr] by (auto simp: requested_ids_def)
qed

lemma tables_transact:
  assumes "q \<in> requested_ids s" and "library_ok c s"
  shows "requestToRefugeeId (transact c s) q = requestToRefugeeId s q"
    and "verificationRequestToId (transact c s) q = verificationRequestToId s q"
proof -
  from assms have n: "requested_of c \<noteq> Some q"
    by (auto simp: library_ok_def)
  show "requestToRefugeeId (transact c s) q = requestToRefugeeId s q"
    by (cases "exec c s") (simp_all add: transact_def exec_tables [OF _ n])
  show "verificationRequestToId (transact c s) q = verificationRequestToId s q"
    by (cases "exec c s") (simp_all add: transact_def exec_tables [OF _ n])
qed

text \<open>
  While the library hands out fresh request ids, the entry of an accepted request
  stays as it is.
\<close>

lemma tables_run:
  "q \<in> requested_ids s \<Longrightarrow> runs_ok ds s \<Longrightarrow>
     requestToRefugeeId (run ds s) q = requestToRefugeeId s q \<and>
     verificationRequestToId (run ds s) q = verificationRequestToId s q \<and>
     q \<in> requested_ids (run ds s)"
proof (induction ds arbitrary: s)
  case Nil
  then show ?case by simp
next
  case (Cons c ds)
  from Cons.prems have ok: "library_ok c s" and rest: "runs_ok ds (transact c s)"
    by simp_all
  from Cons.IH [OF requested_ids_transact [OF Cons.prems(1)] rest]
    tables_transact [OF Cons.prems(1) ok]
  show ?case by simp
qed

lemma ids_inv_init: "ids_inv init_state"
  by (simp add: ids_inv_def init_state_def)

lemma ids_inv_transact:
  assumes "ids_inv s"
  shows "ids_inv (transact c s)"
proof (cases "exec c s")
  case (Inl e)
  with assms show ?thesis by (simp add: transact_def)
next
  case (Inr s')
  have "q \<in> requested_ids s'"
    if q: "requestToRefugeeId s' q \<noteq> 0 \<or> verificationRequestToId s' q \<noteq> 0" for q
  proof (cases "requested_of c = Some q")
    case True
    with Inr show ?thesis
      by (cases c)
        (auto simp: verifyEligibility_Inr requestVerificationResult_Inr requested_ids_def)
  next
    case False
    from exec_tables [OF Inr False] q
    have "requestToRefugeeId s q \<noteq> 0 \<or> verificationRequestToId s q \<noteq> 0"
      by simp
    with assms have "q \<in> requested_ids s"
      unfolding ids_inv_def by blast
    from requested_ids_transact [OF this, of c] show ?thesis
      by (simp add: transact_Inr [OF Inr])
  qed
  then show ?thesis
    unfolding ids_inv_def transact_Inr [OF Inr] by blast
qed

lemma ids_inv_run: "ids_inv s \<Longrightarrow> ids_inv (run cs s)"
  by (induction cs arbitrary: s) (simp_all add: ids_inv_transact)

lemma verifications_inv_init: "verifications_inv init_state"
  by (simp add: verifications_inv_def init_state_def)

lemma verifications_inv_other:
  assumes "verifications_inv s" "verificationCount s' = verificationCount s"
    "encryptedVerifications s' = encryptedVerifications s"
  shows "verifications_inv s'"
  using assms unfolding verifications_inv_def by simp

lemma verifications_inv_exec:
  assumes "verifications_inv s" and "exec c s = Inr s'"
  shows "verifications_inv s'"
proof (cases c)
  case (RegisterEncryptedRefugee x a b c t)
  with assms(2) show ?thesis
    by (intro verifications_inv_other [OF assms(1)])
      (simp_all add: registerEncryptedRefugee_Inr)
next
  case (CreateAidPackage x a b t)
  with assms(2) show ?thesis
    by (intro verifications_inv_other [OF assms(1)])
      (simp_all add: createAidPackage_Inr)
next
  case (VerifyEligibility x r p q)
  with assms(2) show ?thesis
    by (intro verifications_inv_other [OF assms(1)])
      (auto simp: verifyEligibility_Inr)
next
  case (PerformVerification q v d hE hP t)
  with assms(2) obtain identity needs' resources pr where
    s': "s' = s\<lparr>verificationCount := verificationCount s + 1,
               encryptedVerifications := (encryptedVerifications s)(verificationCount s + 1 :=
                 \<lparr>verificationId = verificationCount s + 1,
                  encryptedEligibility = hE, encryptedPriority = hP,
                  v_refugeeId = requestToRefugeeId s q, v_packageId = 0, verifiedAt = t\<rparr>),
               decryptedResults := (decryptedResults s)(verificationCount s + 1 :=
                 \<lparr>eligibility = calculateEligibility identity needs', priority = pr,
                  isRevealed = False\<rparr>),
               events := events s @ [VerificationCompleted (verificationCount s + 1)]\<rparr>"
    by (auto simp: performVerification_Inr)
  from assms(1) show ?thesis
    unfolding verifications_inv_def by (auto simp: s')
next
  case (RequestVerificationResult x v q)
  with assms(2) show ?thesis
    by (intro verifications_inv_other [OF assms(1)])
      (auto simp: requestVerificationResult_Inr)
next
  case (DecryptVerification q v d)
  with assms(2) show ?thesis
    by (intro verifications_inv_other [OF assms(1)])
      (auto simp: decryptVerification_Inr)
qed

lemma verifications_inv_transact: "verifications_inv s \<Longrightarrow> verifications_inv (transact c s)"
  by (cases "exec c s") (simp_all add: transact_def verifications_inv_exec)

lemma verifications_inv_run: "verifications_inv s \<Longrightarrow> verifications_inv (run cs s)"
  by (induction cs arbitrary: s) (simp_all add: verifications_inv_transact)

lemma verifications_inv_exists:
  assumes "verifications_inv s"
  shows "verification_exists s i \<longleftrightarrow> 1 \<le> i \<and> i \<le> verificationCount s"
proof
  assume "verification_exists s i"
  then have "encryptedVerifications s i \<noteq> zero_verification"
    by (simp add: verification_exists_def)
  with assms have "\<not> (i = 0 \<or> verificationCount s < i)"
    unfolding verifications_inv_def by blast
  then show "1 \<le> i \<and> i \<le> verificationCount s" by simp
next
  assume "1 \<le> i \<and> i \<le> verificationCount s"
  with assms have "verificationId (encryptedVerifications s i) = i" and "i \<noteq> 0"
    unfolding verifications_inv_def by auto
  then show "verification_exists s i"
    by (auto simp: verification_exists_def zero_verification_def)
qed

text \<open>
  A reveal request that the library accepts contains no zero handle, so it is a
  request for an identifier that has a Verification.
\<close>

lemma accepted_reveal_has_verification:
  assumes "verifications_inv s"
    and "library_ok (RequestVerificationResult x vid (Some q)) s"
  shows "1 \<le> vid \<and> vid \<le> verificationCount s"
proof -
  from assms(2) have "encryptedEligibility (encryptedVerifications s vid) \<noteq> 0"
    by (auto simp: library_ok_def)
  then have "encryptedVerifications s vid \<noteq> zero_verification"
    by (auto simp: zero_verification_def)
  with assms(1) have "\<not> (vid = 0 \<or> verificationCount s < vid)"
    unfolding verifications_inv_def by blast
  then show ?thesis by simp
qed

lemma reveals_inv_init: "reveals_inv init_state"
  by (simp add: reveals_inv_def init_state_def zero_result_def)

lemma reveals_inv_exec:
  assumes inv: "reveals_inv s" and v: "verifications_inv s"
    and ok: "library_ok c s" and e: "exec c s = Inr s'"
  shows "reveals_inv s'"
proof -
  from inv have t: "\<And>q. verificationRequestToId s q \<le> verificationCount s"
    and r: "\<And>i. isRevealed (decryptedResults s i) \<Longrightarrow> 1 \<le> i \<and> i \<le> verificationCount s"
    unfolding reveals_inv_def by blast+
  show ?thesis
  proof (cases c)
    case (RegisterEncryptedRefugee x a b c t)
    with e inv show ?thesis
      by (auto simp: registerEncryptedRefugee_Inr reveals_inv_def)
  next
    case (CreateAidPackage x a b t)
    with e inv show ?thesis
      by (auto simp: createAidPackage_Inr reveals_inv_def)
  next
    case (VerifyEligibility x r p q)
    with e inv show ?thesis
      by (auto simp: verifyEligibility_Inr reveals_inv_def)
  next
    case (PerformVerification q v d hE hP t)
    with e obtain dr where
      s': "verificationCount s' = verificationCount s + 1"
        "verificationRequestToId s' = verificationRequestToId s"
        "decryptedResults s' = (decryptedResults s)(verificationCount s + 1 := dr)"
        "\<not> isRevealed dr"
      by (auto simp: performVerification_Inr)
    have "verificationRequestToId s' q' \<le> verificationCount s'" for q'
      using t [of q'] by (simp add: s')
    moreover have "1 \<le> i \<and> i \<le> verificationCount s'" if "isRevealed (decryptedResults s' i)" for i
    proof (cases "i = verificationCount s + 1")
      case True
      with that s' show ?thesis by simp
    next
      case False
      with that have "isRevealed (decryptedResults s i)" by (simp add: s')
      from r [OF this] show ?thesis by (simp add: s')
    qed
    ultimately show ?thesis
      unfolding reveals_inv_def by blast
  next
    case (RequestVerificationResult x vid q)
    with e obtain q' where q: "q = Some q'"
      and s': "verificationCount s' = verificationCount s"
        "verificationRequestToId s' = (verificationRequestToId s)(q' := vid)"
        "decryptedResults s' = decryptedResults s"
      by (auto simp: requestVerificationResult_Inr)
    from ok RequestVerificationResult q
    have "1 \<le> vid \<and> vid \<le> verificationCount s"
      by (intro accepted_reveal_has_verification [OF v]) simp
    with t r show ?thesis
      unfolding reveals_inv_def by (auto simp: s')
  next
    case (DecryptVerification q v d)
    with e obtain dr where
      s': "verificationCount s' = verificationCount s"
        "verificationRequestToId s' = verificationRequestToId s"
        "decryptedResults s' = (decryptedResults s)(verificationRequestToId s q := dr)"
        "verificationRequestToId s q \<noteq> 0"
      by (auto simp: decryptVerification_Inr)
    have "verificationRequestToId s' q' \<le> verificationCount s'" for q'
      using t [of q'] by (simp add: s')
    moreover have "1 \<le> i \<and> i \<le> verificationCount s'" if "isRevealed (decryptedResults s' i)" for i
    proof (cases "i = verificationRequestToId s q")
      case True
      from s'(4) have "1 \<le> verificationRequestToId s q" by simp
      with t [of q] True show ?thesis by (simp add: s'(1))
    next
      case False
      with that have "isRevealed (decryptedResults s i)" by (simp add: s')
      from r [OF this] show ?thesis by (simp add: s')
    qed
    ultimately show ?thesis
      unfolding reveals_inv_def by blast
  qed
qed

lemma reveals_inv_run:
  "reveals_inv s \<Longrightarrow> verifications_inv s \<Longrightarrow> runs_ok cs s \<Longrightarrow> reveals_inv (run cs s)"
proof (induction cs arbitrary: s)
  case Nil
  then show ?case by simp
next
  case (Cons c cs)
  from Cons.prems have ok: "library_ok c s" and rest: "runs_ok cs (transact c s)"
    by simp_all
  have "reveals_inv (transact c s)"
  proof (cases "exec c s")
    case (Inl e)
    with Cons.prems(1) show ?thesis by (simp add: transact_def)
  next
    case (Inr s')
    from reveals_inv_exec [OF Cons.prems(1,2) ok Inr] show ?thesis
      by (simp add: transact_Inr [OF Inr])
  qed
  from Cons.IH [OF this verifications_inv_transact [OF Cons.prems(2)] rest]
  show ?case by simp
qed

lemma revealed_result_frozen_transact:
  assumes "vid \<le> verificationCount s" and "isRevealed (decryptedResults s vid)"
  shows "decryptedResults (transact c s) vid = decryptedResults s vid \<and>
         vid \<le> verificationCount (transact c s)"
proof (cases "exec c s")
  case (Inl e)
  with assms show ?thesis by (simp add: transact_def)
next
  case (Inr s')
  then have t: "transact c s = s'" by (rule transact_Inr)
  show ?thesis
  proof (cases c)
    case (RegisterEncryptedRefugee x a b c t)
    with Inr assms show ?thesis
      unfolding t by (simp add: registerEncryptedRefugee_Inr)
  next
    case (CreateAidPackage x a b t)
    with Inr assms show ?thesis
      unfolding t by (simp add: createAidPackage_Inr)
  next
    case (VerifyEligibility x r p q)
    with Inr assms show ?thesis
      unfolding t by (auto simp: verifyEligibility_Inr)
  next
    case (PerformVerification q v d hE hP t)
    with Inr assms show ?thesis
      unfolding t by (auto simp: performVerification_Inr)
  next
    case (RequestVerificationResult x v q)
    with Inr assms show ?thesis
      unfolding t by (auto simp: requestVerificationResult_Inr)
  next
    case (DecryptVerification q v d)
    with Inr assms show ?thesis
      unfolding t by (auto simp: decryptVerification_Inr)
  qed
qed

text \<open>
  Under an identifier that has a Verification, a revealed result stays as it is
  whatever transactions follow.
\<close>

lemma revealed_result_frozen:
  "vid \<le> verificationCount s \<Longrightarrow> isRevealed (decryptedResults s vid) \<Longrightarrow>
     decryptedResults (run cs s) vid = decryptedResults s vid"
proof (induction cs arbitrary: s)
  case Nil
  then show ?case by simp
next
  case (Cons c cs)
  from revealed_result_frozen_transact [OF Cons.prems, of c]
  have "decryptedResults (transact c s) vid = decryptedResults s vid"
    and "vid \<le> verificationCount (transact c s)"
    by simp_all
  with Cons.IH [of "transact c s"] Cons.prems(2) show ?case
    by simp
qed

subsection \<open>Reveals\<close>

lemma reachable_invariants:
  assumes "runs_ok cs init_state"
  shows "reveals_inv (run cs init_state)" and "verifications_inv (run cs init_state)"
    and "ids_inv (run cs init_state)"
  using assms
  by (simp_all add: reveals_inv_run reveals_inv_init verifications_inv_run
      verifications_inv_init ids_inv_run ids_inv_init)

lemma revealed_has_verification:
  assumes "runs_ok cs init_state" and "isRevealed (decryptedResults (run cs init_state) vid)"
  shows "1 \<le> vid \<and> vid \<le> verificationCount (run cs init_state)"
  using reachable_invariants(1) [OF assms(1)] assms(2)
  unfolding reveals_inv_def by blast

text \<open>
  Claim C2. The result of every identifier is unrevealed on deployment, and a result
  that \<open>performVerification\<close> creates is unrevealed. In a run from deployment in which
  the FHE library answers as assumed, a result that is revealed belongs to a
  Verification, and from then on the stored eligibility, priority and flag stay as
  they are whatever transactions follow, so the flag turns true at most once. For an
  identifier that has a Verification this holds from any state. On a revealed result
  \<open>requestVerificationResult\<close> reverts with "Already decrypted" whatever the library
  would answer, and so does a \<open>decryptVerification\<close> callback for it; the state is
  unchanged.
\<close>

theorem C2_revealed_result_frozen:
  "\<not> isRevealed (decryptedResults init_state vid) \<and>
   (performVerification q v d hE hP t s = Inr s' \<longrightarrow>
      \<not> isRevealed (decryptedResults s' (verificationCount s'))) \<and>
   (runs_ok cs init_state \<and> isRevealed (decryptedResults (run cs init_state) vid) \<longrightarrow>
      verification_exists (run cs init_state) vid \<and>
      decryptedResults (run (cs @ ds) init_state) vid =
        decryptedResults (run cs init_state) vid) \<and>
   (vid \<le> verificationCount s \<and> isRevealed (decryptedResults s vid) \<longrightarrow>
      decryptedResults (run ds s) vid = decryptedResults s vid) \<and>
   (isRevealed (decryptedResults s vid) \<longrightarrow>
      requestVerificationResult x vid requested s = Inl Already_decrypted \<and>
      transact (RequestVerificationResult x vid requested) s = s) \<and>
   (isRevealed (decryptedResults s vid) \<and> verificationRequestToId s q = vid \<and> vid \<noteq> 0 \<longrightarrow>
      decryptVerification q v d2 s = Inl Already_decrypted \<and>
      transact (DecryptVerification q v d2) s = s)"
proof (intro conjI impI)
  show "\<not> isRevealed (decryptedResults init_state vid)"
    by (simp add: init_state_def zero_result_def)
next
  assume "performVerification q v d hE hP t s = Inr s'"
  then show "\<not> isRevealed (decryptedResults s' (verificationCount s'))"
    by (auto simp: performVerification_Inr)
next
  assume a: "runs_ok cs init_state \<and> isRevealed (decryptedResults (run cs init_state) vid)"
  then have ok: "runs_ok cs init_state"
    and rv: "isRevealed (decryptedResults (run cs init_state) vid)"
    by simp_all
  from revealed_has_verification [OF ok rv]
  have r: "1 \<le> vid \<and> vid \<le> verificationCount (run cs init_state)" .
  then show "verification_exists (run cs init_state) vid"
    by (simp add: verifications_inv_exists [OF reachable_invariants(2) [OF ok]])
  from r a show "decryptedResults (run (cs @ ds) init_state) vid =
      decryptedResults (run cs init_state) vid"
    by (simp add: run_append revealed_result_frozen)
next
  assume "vid \<le> verificationCount s \<and> isRevealed (decryptedResults s vid)"
  then show "decryptedResults (run ds s) vid = decryptedResults s vid"
    by (simp add: revealed_result_frozen)
next
  assume a: "isRevealed (decryptedResults s vid)"
  then show e: "requestVerificationResult x vid requested s = Inl Already_decrypted"
    by (simp add: requestVerificationResult_def onlyAgency_def)
  then show "transact (RequestVerificationResult x vid requested) s = s"
    by (simp add: transact_def)
next
  assume a: "isRevealed (decryptedResults s vid) \<and> verificationRequestToId s q = vid \<and> vid \<noteq> 0"
  then show e: "decryptVerification q v d2 s = Inl Already_decrypted"
    by (simp add: decryptVerification_def Let_def)
  then show "transact (DecryptVerification q v d2) s = s"
    by (simp add: transact_def)
qed

theorem C2_revealed_result_frozen_witness:
  "runs_ok [example_register, example_package, example_verify, example_perform,
      example_reveal, example_decrypt] init_state \<and>
   decryptedResults (run [example_register, example_package, example_verify,
      example_perform] init_state) 1
     = \<lparr>eligibility = 100, priority = 100, isRevealed = False\<rparr> \<and>
   decryptedResults (run [example_register, example_package, example_verify,
      example_perform, example_reveal, example_decrypt] init_state) 1
     = \<lparr>eligibility = 100, priority = 100, isRevealed = True\<rparr> \<and>
   verification_exists (run [example_register, example_package, example_verify,
      example_perform, example_reveal, example_decrypt] init_state) 1 \<and>
   decryptedResults (run ([example_register, example_package, example_verify,
      example_perform, example_reveal, example_decrypt] @
      [DecryptVerification 8 True (Some (1, 2)), VerifyEligibility 900 1 1 (Some 9),
       PerformVerification 9 True example_cleartexts 33 34 1003,
       RequestVerificationResult 900 1 (Some 10), DecryptVerification 10 True (Some (3, 4))])
      init_state) 1
     = \<lparr>eligibility = 100, priority = 100, isRevealed = True\<rparr> \<and>
   requestVerificationResult 900 1 (Some 9)
     (run [example_register, example_package, example_verify, example_perform,
       example_reveal, example_decrypt] init_state) = Inl Already_decrypted \<and>
   decryptVerification 8 True (Some (1, 2))
     (run [example_register, example_package, example_verify, example_perform,
       example_reveal, example_decrypt] init_state) = Inl Already_decrypted \<and>
   runs_ok ([example_register, example_package, example_verify, example_perform,
      example_reveal, example_decrypt] @
      [DecryptVerification 8 True (Some (1, 2)), VerifyEligibility 900 1 1 (Some 9),
       PerformVerification 9 True example_cleartexts 33 34 1003,
       RequestVerificationResult 900 1 (Some 10), DecryptVerification 10 True (Some (3, 4))]) init_state"
proof -
  have ok': "runs_ok ([example_register, example_package, example_verify, example_perform,
      example_reveal, example_decrypt] @
      [DecryptVerification 8 True (Some (1, 2)), VerifyEligibility 900 1 1 (Some 9),
       PerformVerification 9 True example_cleartexts 33 34 1003,
       RequestVerificationResult 900 1 (Some 10), DecryptVerification 10 True (Some (3, 4))]) init_state"
    by (simp add: exec_defs library_defs init_state_def run_example_performed)
  have ok: "runs_ok [example_register, example_package, example_verify, example_perform,
      example_reveal, example_decrypt] init_state"
    by (simp add: exec_defs library_defs init_state_def run_example_performed)
  have before: "decryptedResults (run [example_register, example_package, example_verify,
      example_perform] init_state) 1
     = \<lparr>eligibility = 100, priority = 100, isRevealed = False\<rparr>"
    by (simp add: exec_defs init_state_def run_example_performed calculateEligibility_def)
  have after: "decryptedResults (run [example_register, example_package, example_verify,
      example_perform, example_reveal, example_decrypt] init_state) 1
     = \<lparr>eligibility = 100, priority = 100, isRevealed = True\<rparr>"
    by (simp add: exec_defs init_state_def run_example_performed calculateEligibility_def)
  have entry: "verificationRequestToId (run [example_register, example_package,
      example_verify, example_perform, example_reveal, example_decrypt] init_state) 8 = 1"
    by (simp add: exec_defs init_state_def run_example_performed)
  from after have revealed: "isRevealed (decryptedResults (run [example_register,
      example_package, example_verify, example_perform, example_reveal, example_decrypt]
      init_state) 1)"
    by simp
  note T = C2_revealed_result_frozen [where vid = 1 and q = 8 and x = 900
      and requested = "Some 9" and v = True and ?d2.0 = "Some (1, 2)"
      and cs = "[example_register, example_package, example_verify, example_perform,
        example_reveal, example_decrypt]"
      and ds = "[DecryptVerification 8 True (Some (1, 2)), VerifyEligibility 900 1 1 (Some 9),
       PerformVerification 9 True example_cleartexts 33 34 1003,
       RequestVerificationResult 900 1 (Some 10), DecryptVerification 10 True (Some (3, 4))]"
      and s = "run [example_register, example_package, example_verify, example_perform,
        example_reveal, example_decrypt] init_state"]
  from T ok revealed
  have 1: "verification_exists (run [example_register, example_package, example_verify,
      example_perform, example_reveal, example_decrypt] init_state) 1"
    and 2: "decryptedResults (run ([example_register, example_package, example_verify,
      example_perform, example_reveal, example_decrypt] @
      [DecryptVerification 8 True (Some (1, 2)), VerifyEligibility 900 1 1 (Some 9),
       PerformVerification 9 True example_cleartexts 33 34 1003,
       RequestVerificationResult 900 1 (Some 10), DecryptVerification 10 True (Some (3, 4))])
      init_state) 1
     = decryptedResults (run [example_register, example_package, example_verify,
      example_perform, example_reveal, example_decrypt] init_state) 1"
    by blast+
  from T revealed
  have 3: "requestVerificationResult 900 1 (Some 9)
     (run [example_register, example_package, example_verify, example_perform,
       example_reveal, example_decrypt] init_state) = Inl Already_decrypted"
    by blast
  from T revealed entry
  have 4: "decryptVerification 8 True (Some (1, 2))
     (run [example_register, example_package, example_verify, example_perform,
       example_reveal, example_decrypt] init_state) = Inl Already_decrypted"
    by auto
  from ok ok' before after 1 2 3 4 show ?thesis
    by (intro conjI) simp_all
qed

subsection \<open>Correlation of requests and callbacks\<close>

lemma verifyEligibility_registers:
  "requestToRefugeeId (transact (VerifyEligibility x r p (Some q)) s) q = r \<and>
   q \<in> requested_ids (transact (VerifyEligibility x r p (Some q)) s)"
proof -
  have "exec (VerifyEligibility x r p (Some q)) s =
      Inr (s\<lparr>requestToRefugeeId := (requestToRefugeeId s)(q := r),
            events := events s @ [VerificationRequested q r],
            oracleRequests := oracleRequests s @
              [(q, [encryptedIdentity (encryptedRefugees s r),
                    encryptedNeeds (encryptedRefugees s r),
                    encryptedResources (encryptedPackages s p)],
                performVerification_selector)]\<rparr>)"
    by (simp add: verifyEligibility_Inr)
  from transact_Inr [OF this] show ?thesis
    by (simp add: requested_ids_def)
qed

lemma requestVerificationResult_registers:
  assumes "\<not> isRevealed (decryptedResults s vid)"
  shows "verificationRequestToId (transact (RequestVerificationResult x vid (Some q)) s) q = vid \<and>
   q \<in> requested_ids (transact (RequestVerificationResult x vid (Some q)) s)"
proof -
  from assms have "exec (RequestVerificationResult x vid (Some q)) s =
      Inr (s\<lparr>verificationRequestToId := (verificationRequestToId s)(q := vid),
            oracleRequests := oracleRequests s @
              [(q, [encryptedEligibility (encryptedVerifications s vid),
                    encryptedPriority (encryptedVerifications s vid)],
                decryptVerification_selector)]\<rparr>)"
    by (simp add: requestVerificationResult_Inr)
  from transact_Inr [OF this] show ?thesis
    by (simp add: requested_ids_def)
qed

lemma performVerification_target:
  assumes "performVerification q v d hE hP t s = Inr s'"
  shows "requestToRefugeeId s' = requestToRefugeeId s"
    and "verificationRequestToId s' = verificationRequestToId s"
    and "requestToRefugeeId s q \<noteq> 0"
    and "v_refugeeId (encryptedVerifications s' (verificationCount s')) = requestToRefugeeId s q"
    and "verificationCount s' = verificationCount s + 1"
    and "oracleRequests s' = oracleRequests s"
  using assms by (auto simp: performVerification_Inr)

lemma decryptVerification_target:
  assumes "decryptVerification q v d s = Inr s'"
  shows "requestToRefugeeId s' = requestToRefugeeId s"
    and "verificationRequestToId s' = verificationRequestToId s"
    and "verificationRequestToId s q \<noteq> 0"
    and "\<not> isRevealed (decryptedResults s (verificationRequestToId s q))"
    and "isRevealed (decryptedResults s' (verificationRequestToId s q))"
    and "\<forall>i. i \<noteq> verificationRequestToId s q \<longrightarrow> decryptedResults s' i = decryptedResults s i"
    and "verificationCount s' = verificationCount s"
    and "oracleRequests s' = oracleRequests s"
  using assms by (auto simp: decryptVerification_Inr)

text \<open>
  A second delivery of a \<open>performVerification\<close> that succeeded, at any later time.
\<close>

lemma performVerification_replayed:
  assumes ok: "runs_ok (cs @ PerformVerification q v d hE hP t # ds) init_state"
    and first: "\<not> isl (performVerification q v d hE hP t (run cs init_state))"
    and room: "verificationCount
      (run (cs @ PerformVerification q v d hE hP t # ds) init_state) + 1 \<le> MAX_UINT256"
  shows "\<exists>s''. performVerification q v d hE' hP' t'
        (run (cs @ PerformVerification q v d hE hP t # ds) init_state) = Inr s'' \<and>
      verificationCount s'' =
        verificationCount (run (cs @ PerformVerification q v d hE hP t # ds) init_state) + 1 \<and>
      v_refugeeId (encryptedVerifications s'' (verificationCount s'')) =
        requestToRefugeeId (run cs init_state) q"
proof -
  define s where "s = run cs init_state"
  from first obtain s' where e: "performVerification q v d hE hP t s = Inr s'"
    unfolding s_def by (cases "performVerification q v d hE hP t (run cs init_state)") auto
  then have t: "transact (PerformVerification q v d hE hP t) s = s'"
    by (simp add: transact_def)
  from ok have okcs: "runs_ok cs init_state" and okds: "runs_ok ds s'"
    by (simp_all add: runs_ok_append s_def [symmetric] t)
  have r: "run (cs @ PerformVerification q v d hE hP t # ds) init_state = run ds s'"
    by (simp add: run_append s_def [symmetric] t)
  from e obtain identity needs' resources pr where
    q: "requestToRefugeeId s q \<noteq> 0" and v: v and d: "d = Some (identity, needs', resources)"
    and pr: "calculatePriority needs' resources = Inr pr"
    unfolding performVerification_Inr by blast
  have "ids_inv s"
    unfolding s_def by (rule reachable_invariants(3) [OF okcs])
  with q have "q \<in> requested_ids s"
    unfolding ids_inv_def by blast
  with performVerification_target(6) [OF e] have "q \<in> requested_ids s'"
    by (simp add: requested_ids_def)
  from tables_run [OF this okds] performVerification_target(1) [OF e]
  have keep: "requestToRefugeeId (run ds s') q = requestToRefugeeId s q"
    by simp
  from room q v d pr keep show ?thesis
    unfolding r s_def [symmetric] by (simp add: performVerification_Inr)
qed

text \<open>
  A second delivery of a \<open>decryptVerification\<close> that succeeded, at any later time.
\<close>

lemma decryptVerification_replayed:
  assumes ok: "runs_ok (cs @ DecryptVerification q v d # ds) init_state"
    and first: "\<not> isl (decryptVerification q v d (run cs init_state))"
  shows "decryptVerification q v' d'
      (run (cs @ DecryptVerification q v d # ds) init_state) = Inl Already_decrypted"
proof -
  define s where "s = run cs init_state"
  from first obtain s' where e: "decryptVerification q v d s = Inr s'"
    unfolding s_def by (cases "decryptVerification q v d (run cs init_state)") auto
  then have t: "transact (DecryptVerification q v d) s = s'"
    by (simp add: transact_def)
  from ok have okcs: "runs_ok cs init_state" and okds: "runs_ok ds s'"
    by (simp_all add: runs_ok_append s_def [symmetric] t)
  have r: "run (cs @ DecryptVerification q v d # ds) init_state = run ds s'"
    by (simp add: run_append s_def [symmetric] t)
  define vid where "vid = verificationRequestToId s q"
  note tg = decryptVerification_target [OF e, folded vid_def]
  have "ids_inv s" and "reveals_inv s"
    unfolding s_def
    by (rule reachable_invariants(3) [OF okcs], rule reachable_invariants(1) [OF okcs])
  with tg(3) have "q \<in> requested_ids s" and le: "vid \<le> verificationCount s"
    unfolding ids_inv_def reveals_inv_def vid_def by blast+
  with tg(8) have "q \<in> requested_ids s'"
    by (simp add: requested_ids_def)
  from tables_run [OF this okds] tg(2)
  have keep: "verificationRequestToId (run ds s') q = vid"
    by (simp add: vid_def)
  from le tg(7) have "vid \<le> verificationCount s'"
    by simp
  from revealed_result_frozen [OF this tg(5), of ds] tg(5)
  have "isRevealed (decryptedResults (run ds s') vid)"
    by simp
  with keep tg(3) show ?thesis
    unfolding r by (simp add: decryptVerification_def Let_def)
qed

text \<open>
  Claim C1, as amended. A callback never removes or marks its correlation entry:
  \<open>performVerification\<close> and \<open>decryptVerification\<close> leave both request tables as they
  are. Every successful callback acts on the target registered when its request id
  was submitted, while the library hands out fresh request ids: the Verification that
  \<open>performVerification\<close> creates carries the \<open>refugeeId\<close> that \<open>verifyEligibility\<close>
  registered, and \<open>decryptVerification\<close> reveals the result of the \<open>verificationId\<close> that
  \<open>requestVerificationResult\<close> registered and no other. In a run from deployment in
  which the FHE library answers as assumed, a \<open>performVerification\<close> delivered again at
  any later time, with the request id, cleartexts and accepted proof of one that
  succeeded, succeeds again unless the counter is exhausted, and creates a further
  Verification for the same record; a \<open>decryptVerification\<close> delivered again at any
  later time after one that succeeded reverts, with "Already decrypted".
\<close>

theorem C1_callbacks_keep_correlation_entries:
  "(performVerification q v d hE hP t s = Inr s' \<longrightarrow>
      requestToRefugeeId s' = requestToRefugeeId s \<and>
      verificationRequestToId s' = verificationRequestToId s \<and>
      requestToRefugeeId s q \<noteq> 0 \<and>
      v_refugeeId (encryptedVerifications s' (verificationCount s')) = requestToRefugeeId s q) \<and>
   (decryptVerification q v d2 s = Inr s' \<longrightarrow>
      requestToRefugeeId s' = requestToRefugeeId s \<and>
      verificationRequestToId s' = verificationRequestToId s \<and>
      verificationRequestToId s q \<noteq> 0 \<and>
      isRevealed (decryptedResults s' (verificationRequestToId s q)) \<and>
      (\<forall>i. i \<noteq> verificationRequestToId s q \<longrightarrow> decryptedResults s' i = decryptedResults s i)) \<and>
   (runs_ok ds (transact (VerifyEligibility x r p (Some q)) s) \<and>
    performVerification q v d hE hP t
      (run ds (transact (VerifyEligibility x r p (Some q)) s)) = Inr s' \<longrightarrow>
      v_refugeeId (encryptedVerifications s' (verificationCount s')) = r) \<and>
   (\<not> isRevealed (decryptedResults s vid) \<and>
    runs_ok ds (transact (RequestVerificationResult x vid (Some q)) s) \<and>
    decryptVerification q v d2
      (run ds (transact (RequestVerificationResult x vid (Some q)) s)) = Inr s' \<longrightarrow>
      isRevealed (decryptedResults s' vid) \<and>
      (\<forall>i. i \<noteq> vid \<longrightarrow> decryptedResults s' i =
         decryptedResults (run ds (transact (RequestVerificationResult x vid (Some q)) s)) i)) \<and>
   (runs_ok (cs @ PerformVerification q v d hE hP t # ds) init_state \<and>
    \<not> isl (performVerification q v d hE hP t (run cs init_state)) \<and>
    verificationCount (run (cs @ PerformVerification q v d hE hP t # ds) init_state) + 1
      \<le> MAX_UINT256 \<longrightarrow>
      (\<exists>s''. performVerification q v d hE' hP' t'
           (run (cs @ PerformVerification q v d hE hP t # ds) init_state) = Inr s'' \<and>
         verificationCount s'' =
           verificationCount (run (cs @ PerformVerification q v d hE hP t # ds) init_state)
             + 1 \<and>
         v_refugeeId (encryptedVerifications s'' (verificationCount s'')) =
           requestToRefugeeId (run cs init_state) q)) \<and>
   (runs_ok (cs @ DecryptVerification q v d2 # ds) init_state \<and>
    \<not> isl (decryptVerification q v d2 (run cs init_state)) \<longrightarrow>
      decryptVerification q v3 d3 (run (cs @ DecryptVerification q v d2 # ds) init_state)
        = Inl Already_decrypted)"
proof (intro conjI impI)
  assume a: "performVerification q v d hE hP t s = Inr s'"
  from performVerification_target [OF a]
  show "requestToRefugeeId s' = requestToRefugeeId s"
    and "verificationRequestToId s' = verificationRequestToId s"
    and "requestToRefugeeId s q \<noteq> 0"
    and "v_refugeeId (encryptedVerifications s' (verificationCount s')) = requestToRefugeeId s q"
    by simp_all
next
  assume a: "decryptVerification q v d2 s = Inr s'"
  from decryptVerification_target [OF a]
  show "requestToRefugeeId s' = requestToRefugeeId s"
    and "verificationRequestToId s' = verificationRequestToId s"
    and "verificationRequestToId s q \<noteq> 0"
    and "isRevealed (decryptedResults s' (verificationRequestToId s q))"
    and "\<forall>i. i \<noteq> verificationRequestToId s q \<longrightarrow> decryptedResults s' i = decryptedResults s i"
    by simp_all
next
  assume a: "runs_ok ds (transact (VerifyEligibility x r p (Some q)) s) \<and>
    performVerification q v d hE hP t
      (run ds (transact (VerifyEligibility x r p (Some q)) s)) = Inr s'"
  from verifyEligibility_registers [of x r p q s] a
    tables_run [of q "transact (VerifyEligibility x r p (Some q)) s" ds]
  have "requestToRefugeeId (run ds (transact (VerifyEligibility x r p (Some q)) s)) q = r"
    by simp
  with performVerification_target(4) [of q v d hE hP t
      "run ds (transact (VerifyEligibility x r p (Some q)) s)" s'] a
  show "v_refugeeId (encryptedVerifications s' (verificationCount s')) = r"
    by simp
next
  assume a: "\<not> isRevealed (decryptedResults s vid) \<and>
    runs_ok ds (transact (RequestVerificationResult x vid (Some q)) s) \<and>
    decryptVerification q v d2
      (run ds (transact (RequestVerificationResult x vid (Some q)) s)) = Inr s'"
  then have u: "\<not> isRevealed (decryptedResults s vid)"
    and b: "decryptVerification q v d2
      (run ds (transact (RequestVerificationResult x vid (Some q)) s)) = Inr s'"
    by simp_all
  from requestVerificationResult_registers [OF u, of x q] a
    tables_run [of q "transact (RequestVerificationResult x vid (Some q)) s" ds]
  have k: "verificationRequestToId
      (run ds (transact (RequestVerificationResult x vid (Some q)) s)) q = vid"
    by simp
  from decryptVerification_target(5) [OF b] k
  show "isRevealed (decryptedResults s' vid)"
    by simp
  from decryptVerification_target(6) [OF b] k
  show "\<forall>i. i \<noteq> vid \<longrightarrow> decryptedResults s' i =
         decryptedResults (run ds (transact (RequestVerificationResult x vid (Some q)) s)) i"
    by simp
next
  assume "runs_ok (cs @ PerformVerification q v d hE hP t # ds) init_state \<and>
    \<not> isl (performVerification q v d hE hP t (run cs init_state)) \<and>
    verificationCount (run (cs @ PerformVerification q v d hE hP t # ds) init_state) + 1
      \<le> MAX_UINT256"
  then show "\<exists>s''. performVerification q v d hE' hP' t'
           (run (cs @ PerformVerification q v d hE hP t # ds) init_state) = Inr s'' \<and>
         verificationCount s'' =
           verificationCount (run (cs @ PerformVerification q v d hE hP t # ds) init_state)
             + 1 \<and>
         v_refugeeId (encryptedVerifications s'' (verificationCount s'')) =
           requestToRefugeeId (run cs init_state) q"
    by (intro performVerification_replayed) simp_all
next
  assume "runs_ok (cs @ DecryptVerification q v d2 # ds) init_state \<and>
    \<not> isl (decryptVerification q v d2 (run cs init_state))"
  then show "decryptVerification q v3 d3
      (run (cs @ DecryptVerification q v d2 # ds) init_state) = Inl Already_decrypted"
    by (intro decryptVerification_replayed) simp_all
qed

lemma example_steps:
  "performVerification 7 True example_cleartexts 31 32 1002 (run example_requested init_state)
     = Inr (run example_verified init_state)"
  "decryptVerification 8 True (Some (100, 100)) (run example_reveal_requested init_state)
     = Inr (run example_revealed init_state)"
  "transact example_verify (run [example_register, example_package] init_state)
     = run example_requested init_state"
  "transact example_reveal (run example_verified init_state)
     = run example_reveal_requested init_state"
  "\<not> isRevealed (decryptedResults (run example_verified init_state) 1)"
  "verificationCount (run example_verified init_state) = 1"
  "verificationCount (run example_revealed init_state) = 1"
  "requestToRefugeeId (run example_requested init_state) 7 = 1"
  "verificationRequestToId (run example_reveal_requested init_state) 8 = 1"
  "runs_ok example_revealed init_state"
  by (simp_all add: exec_defs library_defs init_state_def run_example_performed)

theorem C1_callbacks_keep_correlation_entries_witness:
  "v_refugeeId (encryptedVerifications (run example_verified init_state) 1) = 1 \<and>
   requestToRefugeeId (run example_verified init_state)
     = requestToRefugeeId (run example_requested init_state) \<and>
   isRevealed (decryptedResults (run example_revealed init_state) 1) \<and>
   verificationRequestToId (run example_revealed init_state)
     = verificationRequestToId (run example_reveal_requested init_state) \<and>
   (\<exists>s''. performVerification 7 True example_cleartexts 33 34 1003
        (run example_revealed init_state) = Inr s'' \<and>
      verificationCount s'' = 2 \<and>
      v_refugeeId (encryptedVerifications s'' (verificationCount s'')) = 1) \<and>
   decryptVerification 8 True (Some (1, 2))
     (run (example_revealed @ [VerifyEligibility 900 1 1 (Some 9)]) init_state)
     = Inl Already_decrypted \<and>
   runs_ok (example_revealed @ [VerifyEligibility 900 1 1 (Some 9)]) init_state"
proof -
  have ok: "runs_ok (example_revealed @ [VerifyEligibility 900 1 1 (Some 9)]) init_state"
    by (simp add: exec_defs library_defs init_state_def run_example_performed)
  note T1 = C1_callbacks_keep_correlation_entries [where q = 7 and v = True
      and d = example_cleartexts and hE = 31 and hP = 32 and t = 1002
      and s = "run example_requested init_state" and s' = "run example_verified init_state",
      THEN conjunct1]
  from T1 example_steps(1)
  have 1: "requestToRefugeeId (run example_verified init_state)
      = requestToRefugeeId (run example_requested init_state)"
    by blast
  note T2 = C1_callbacks_keep_correlation_entries [where q = 8 and v = True
      and ?d2.0 = "Some (100, 100)"
      and s = "run example_reveal_requested init_state"
      and s' = "run example_revealed init_state",
      THEN conjunct2, THEN conjunct1]
  from T2 example_steps(2)
  have 3: "verificationRequestToId (run example_revealed init_state)
      = verificationRequestToId (run example_reveal_requested init_state)"
    by blast
  note T3 = C1_callbacks_keep_correlation_entries [where q = 7 and v = True
      and d = example_cleartexts and hE = 31 and hP = 32 and t = 1002
      and x = 900 and r = 1 and p = 1 and ds = "[]"
      and s = "run [example_register, example_package] init_state"
      and s' = "run example_verified init_state",
      THEN conjunct2, THEN conjunct2, THEN conjunct1]
  from T3 example_steps(1)
  have 5: "v_refugeeId (encryptedVerifications (run example_verified init_state)
        (verificationCount (run example_verified init_state))) = 1"
    unfolding example_steps(3) by simp
  then have v2: "v_refugeeId (encryptedVerifications (run example_verified init_state) 1) = 1"
    unfolding example_steps(6) .
  note T4 = C1_callbacks_keep_correlation_entries [where q = 8 and v = True
      and ?d2.0 = "Some (100, 100)" and x = 900 and vid = 1 and ds = "[]"
      and s = "run example_verified init_state"
      and s' = "run example_revealed init_state",
      THEN conjunct2, THEN conjunct2, THEN conjunct2, THEN conjunct1]
  from T4 example_steps(2) example_steps(5)
  have r4: "isRevealed (decryptedResults (run example_revealed init_state) 1)"
    unfolding example_steps(4) by simp
  have a5: "example_requested @ example_perform # [example_reveal, example_decrypt]
      = example_revealed"
    by simp
  note T5 = C1_callbacks_keep_correlation_entries [where q = 7 and v = True
      and d = example_cleartexts and hE = 31 and hP = 32 and t = 1002
      and hE' = 33 and hP' = 34 and t' = 1003
      and cs = example_requested and ds = "[example_reveal, example_decrypt]",
      THEN conjunct2, THEN conjunct2, THEN conjunct2, THEN conjunct2, THEN conjunct1,
      unfolded a5]
  have room: "verificationCount (run example_revealed init_state) + 1 \<le> MAX_UINT256"
    unfolding example_steps(7) by (simp add: MAX_UINT256_def)
  have first: "\<not> isl (performVerification 7 True example_cleartexts 31 32 1002
      (run example_requested init_state))"
    unfolding example_steps(1) by simp
  from T5 example_steps(10) first room
  obtain s'' where 7: "performVerification 7 True example_cleartexts 33 34 1003
        (run example_revealed init_state) = Inr s''"
    and 8: "verificationCount s'' = verificationCount (run example_revealed init_state) + 1"
    and 9: "v_refugeeId (encryptedVerifications s'' (verificationCount s'')) =
        requestToRefugeeId (run example_requested init_state) 7"
    by blast
  from 8 have c8: "verificationCount s'' = 2"
    unfolding example_steps(7) by simp
  from 9 have c9: "v_refugeeId (encryptedVerifications s'' (verificationCount s'')) = 1"
    unfolding example_steps(8) .
  from 7 c8 c9 have 10: "\<exists>s''. performVerification 7 True example_cleartexts 33 34 1003
        (run example_revealed init_state) = Inr s'' \<and>
      verificationCount s'' = 2 \<and>
      v_refugeeId (encryptedVerifications s'' (verificationCount s'')) = 1"
    by blast
  have a6: "example_reveal_requested @ example_decrypt # [VerifyEligibility 900 1 1 (Some 9)]
      = example_revealed @ [VerifyEligibility 900 1 1 (Some 9)]"
    by simp
  note T6 = C1_callbacks_keep_correlation_entries [where q = 8 and v = True
      and ?d2.0 = "Some (100, 100)" and ?v3.0 = True and ?d3.0 = "Some (1, 2)"
      and cs = example_reveal_requested and ds = "[VerifyEligibility 900 1 1 (Some 9)]",
      THEN conjunct2, THEN conjunct2, THEN conjunct2, THEN conjunct2, THEN conjunct2,
      unfolded a6]
  have first': "\<not> isl (decryptVerification 8 True (Some (100, 100))
      (run example_reveal_requested init_state))"
    unfolding example_steps(2) by simp
  from T6 ok first'
  have 11: "decryptVerification 8 True (Some (1, 2))
     (run (example_revealed @ [VerifyEligibility 900 1 1 (Some 9)]) init_state)
     = Inl Already_decrypted"
    by blast
  from v2 1 r4 3 10 11 ok show ?thesis
    by (intro conjI)
qed

text \<open>
  Claim C1 as stated fails. After \<open>performVerification\<close> has succeeded for request 7, a
  second delivery for request 7 does not revert with "Invalid request": it succeeds
  and creates Verification 2 for the same record. After \<open>decryptVerification\<close> has
  succeeded for request 8, a second delivery for request 8 reverts, but with "Already
  decrypted". Every request of the run is over handles that are not zero and carries a
  fresh id.
\<close>

theorem C1_replay_counterexample:
  "runs_ok (example_verified @
     [PerformVerification 7 True example_cleartexts 33 34 1003, example_reveal,
      example_decrypt]) init_state \<and>
   verificationCount (run example_verified init_state) = 1 \<and>
   \<not> isl (performVerification 7 True example_cleartexts 33 34 1003
     (run example_verified init_state)) \<and>
   verificationCount (run (example_verified @
     [PerformVerification 7 True example_cleartexts 33 34 1003]) init_state) = 2 \<and>
   v_refugeeId (encryptedVerifications (run (example_verified @
     [PerformVerification 7 True example_cleartexts 33 34 1003]) init_state) 2) = 1 \<and>
   runs_ok example_revealed init_state \<and>
   \<not> isl (decryptVerification 8 True (Some (100, 100))
     (run example_reveal_requested init_state)) \<and>
   decryptVerification 8 True (Some (100, 100)) (run example_revealed init_state)
     = Inl Already_decrypted"
  by (simp add: exec_defs library_defs init_state_def run_example_performed)

subsection \<open>Existence checks and the access gate\<close>

text \<open>
  Claim C3, as amended. \<open>verifyEligibility\<close> makes no existence check and has no
  \<open>NotFound\<close> outcome of its own: it fails exactly when \<open>FHE.requestDecryption\<close>
  reverts. When the record or the package is absent, a handle read from the absent
  slot is the zero handle, which the library refuses as assumed; the call then
  reverts with the library's error, and the transaction submits no decryption
  request and registers no correlation entry.
\<close>

theorem C3_absent_record_refused:
  "isl (verifyEligibility x r p requested s) = (requested = None) \<and>
   (\<not> refugee_exists s r \<or> \<not> package_exists s p \<longrightarrow>
      0 \<in> set (submitted_handles (VerifyEligibility x r p requested) s)) \<and>
   (library_ok (VerifyEligibility x r p requested) s \<and>
    (\<not> refugee_exists s r \<or> \<not> package_exists s p) \<longrightarrow>
      verifyEligibility x r p requested s = Inl RequestDecryption_reverted \<and>
      transact (VerifyEligibility x r p requested) s = s \<and>
      oracleRequests (transact (VerifyEligibility x r p requested) s) = oracleRequests s \<and>
      requestToRefugeeId (transact (VerifyEligibility x r p requested) s)
        = requestToRefugeeId s)"
proof -
  have 1: "isl (verifyEligibility x r p requested s) = (requested = None)"
    by (cases requested) (simp_all add: verifyEligibility_def onlyAgency_def Let_def)
  have 2: "0 \<in> set (submitted_handles (VerifyEligibility x r p requested) s)"
    if "\<not> refugee_exists s r \<or> \<not> package_exists s p"
    using that
    by (auto simp: refugee_exists_def package_exists_def zero_refugee_def zero_package_def)
  have 3: "verifyEligibility x r p requested s = Inl RequestDecryption_reverted \<and>
      transact (VerifyEligibility x r p requested) s = s"
    if "library_ok (VerifyEligibility x r p requested) s \<and>
      (\<not> refugee_exists s r \<or> \<not> package_exists s p)"
  proof -
    from that 2 have z: "0 \<in> set (submitted_handles (VerifyEligibility x r p requested) s)"
      by blast
    from that have "library_ok (VerifyEligibility x r p requested) s"
      by simp
    with z have "requested = None"
      by (cases requested) (simp_all add: library_ok_def)
    then have "verifyEligibility x r p requested s = Inl RequestDecryption_reverted"
      by (simp add: verifyEligibility_def onlyAgency_def Let_def)
    then show ?thesis
      by (simp add: transact_def)
  qed
  from 1 2 3 show ?thesis
    by (intro conjI impI) simp_all
qed

theorem C3_absent_record_refused_witness:
  "verifyEligibility 900 5 1 None (run [example_register, example_package] init_state)
     = Inl RequestDecryption_reverted \<and>
   verifyEligibility 900 1 9 None (run [example_register, example_package] init_state)
     = Inl RequestDecryption_reverted \<and>
   oracleRequests (transact (VerifyEligibility 900 5 1 None)
     (run [example_register, example_package] init_state)) = [] \<and>
   requestToRefugeeId (transact (VerifyEligibility 900 1 9 None)
     (run [example_register, example_package] init_state))
     = requestToRefugeeId (run [example_register, example_package] init_state)"
proof -
  have a: "\<not> refugee_exists (run [example_register, example_package] init_state) 5"
    "\<not> package_exists (run [example_register, example_package] init_state) 9"
    "oracleRequests (run [example_register, example_package] init_state) = []"
    by (simp_all add: exec_defs init_state_def refugee_exists_def package_exists_def)
  have ok: "library_ok (VerifyEligibility 900 5 1 None)
      (run [example_register, example_package] init_state)"
    "library_ok (VerifyEligibility 900 1 9 None)
      (run [example_register, example_package] init_state)"
    by (simp_all add: library_ok_def)
  note T1 = C3_absent_record_refused [where x = 900 and r = 5 and p = 1
      and requested = None
      and s = "run [example_register, example_package] init_state",
      THEN conjunct2, THEN conjunct2]
  note T2 = C3_absent_record_refused [where x = 900 and r = 1 and p = 9
      and requested = None
      and s = "run [example_register, example_package] init_state",
      THEN conjunct2, THEN conjunct2]
  from T1 ok(1) a(1)
  have 1: "verifyEligibility 900 5 1 None (run [example_register, example_package] init_state)
     = Inl RequestDecryption_reverted"
    and 2: "oracleRequests (transact (VerifyEligibility 900 5 1 None)
     (run [example_register, example_package] init_state))
     = oracleRequests (run [example_register, example_package] init_state)"
    by blast+
  from T2 ok(2) a(2)
  have 3: "verifyEligibility 900 1 9 None (run [example_register, example_package] init_state)
     = Inl RequestDecryption_reverted"
    and 4: "requestToRefugeeId (transact (VerifyEligibility 900 1 9 None)
     (run [example_register, example_package] init_state))
     = requestToRefugeeId (run [example_register, example_package] init_state)"
    by blast+
  from 2 have 5: "oracleRequests (transact (VerifyEligibility 900 5 1 None)
     (run [example_register, example_package] init_state)) = []"
    unfolding a(3) .
  from 1 3 5 4 show ?thesis
    by (intro conjI)
qed

text \<open>
  Claim C3 as stated fails in the error it names: the contract has no \<open>NotFound\<close>.
  On the absent record 5 and the absent package 9 the call reverts because the
  library refuses the request, and this is the very revert that a refused request
  over the stored record 1 and the stored package 1 gives: the failure does not tell
  an absent entity from a stored one.
\<close>

theorem C3_no_NotFound_counterexample:
  "\<not> refugee_exists init_state 5 \<and> \<not> package_exists init_state 9 \<and>
   library_ok (VerifyEligibility 900 5 9 None) init_state \<and>
   verifyEligibility 900 5 9 None init_state = Inl RequestDecryption_reverted \<and>
   refugee_exists (run [example_register, example_package] init_state) 1 \<and>
   package_exists (run [example_register, example_package] init_state) 1 \<and>
   verifyEligibility 900 1 1 None (run [example_register, example_package] init_state)
     = Inl RequestDecryption_reverted"
  by (simp add: exec_defs library_defs init_state_def refugee_exists_def package_exists_def
      zero_refugee_def zero_package_def)

text \<open>
  Claim C4, as amended. No state-changing function consults an authorization
  decision for the caller: the modifier \<open>onlyAgency\<close> is an empty placeholder that runs
  the body of the function whoever the caller is. The outcome of
  \<open>registerEncryptedRefugee\<close>, \<open>createAidPackage\<close>, \<open>verifyEligibility\<close> and
  \<open>requestVerificationResult\<close> is the same for every caller, none of them can return
  \<open>Unauthorized\<close>, and the contract behaves as the specified gate would with the
  decision fixed to "allow". In the interface, the outcome of \<open>approveRecord\<close> and
  \<open>distributeRecord\<close> does not depend on the connected account.
\<close>

theorem C4_no_authorization_check:
  "onlyAgency x body s = body s \<and>
   Permitted (onlyAgency x body s) = spec_access_gate True body s \<and>
   registerEncryptedRefugee x a b c t s = registerEncryptedRefugee y a b c t s \<and>
   createAidPackage x a b t s = createAidPackage y a b t s \<and>
   verifyEligibility x r p requested s = verifyEligibility y r p requested s \<and>
   requestVerificationResult x vid requested s = requestVerificationResult y vid requested s \<and>
   approveRecord (env\<lparr>account := acc\<rparr>) recordId st = approveRecord env recordId st \<and>
   distributeRecord (env\<lparr>account := acc\<rparr>) recordId st = distributeRecord env recordId st"
proof -
  have 1: "onlyAgency x body s = body s"
    by (simp add: onlyAgency_def)
  have 2: "Permitted (onlyAgency x body s) = spec_access_gate True body s"
    by (simp add: onlyAgency_def spec_access_gate_def)
  have 3: "registerEncryptedRefugee x a b c t s = registerEncryptedRefugee y a b c t s"
    by (simp add: registerEncryptedRefugee_def onlyAgency_def)
  have 4: "createAidPackage x a b t s = createAidPackage y a b t s"
    by (simp add: createAidPackage_def onlyAgency_def)
  have 5: "verifyEligibility x r p requested s = verifyEligibility y r p requested s"
    by (simp add: verifyEligibility_def onlyAgency_def)
  have 6: "requestVerificationResult x vid requested s =
      requestVerificationResult y vid requested s"
    by (simp add: requestVerificationResult_def onlyAgency_def)
  have 7: "approveRecord (env\<lparr>account := acc\<rparr>) recordId st = approveRecord env recordId st"
    by (simp add: approveRecord_def Let_def split: option.splits stored_bytes.splits)
  have 8: "distributeRecord (env\<lparr>account := acc\<rparr>) recordId st =
      distributeRecord env recordId st"
    by (simp add: distributeRecord_def Let_def split: option.splits stored_bytes.splits)
  from 1 2 3 4 5 6 7 8 show ?thesis
    by (intro conjI)
qed

theorem C4_no_authorization_check_witness:
  "registerEncryptedRefugee 900 11 12 13 1000 init_state
     = registerEncryptedRefugee 666 11 12 13 1000 init_state \<and>
   \<not> isl (registerEncryptedRefugee 666 11 12 13 1000 init_state) \<and>
   verifyEligibility 900 1 1 (Some 7) (run [example_register, example_package] init_state)
     = verifyEligibility 666 1 1 (Some 7) (run [example_register, example_package] init_state) \<and>
   \<not> isl (verifyEligibility 666 1 1 (Some 7)
     (run [example_register, example_package] init_state)) \<and>
   approveRecord (example_env\<lparr>account := ''0xdef''\<rparr>) ''r1''
     [''aid_r1'' \<mapsto> Record_json (example_record pending)]
     = approveRecord example_env ''r1'' [''aid_r1'' \<mapsto> Record_json (example_record pending)] \<and>
   \<not> isl (approveRecord example_env ''r1''
     [''aid_r1'' \<mapsto> Record_json (example_record pending)])"
proof -
  note T1 = C4_no_authorization_check [where x = 900 and y = 666 and a = 11 and b = 12
      and c = 13 and t = 1000 and s = init_state]
  note T2 = C4_no_authorization_check [where x = 900 and y = 666 and r = 1 and p = 1
      and requested = "Some 7" and s = "run [example_register, example_package] init_state"]
  note T3 = C4_no_authorization_check [where env = example_env and acc = "''0xdef''"
      and recordId = "''r1''" and st = "[''aid_r1'' \<mapsto> Record_json (example_record pending)]"]
  from T1 have 1: "registerEncryptedRefugee 900 11 12 13 1000 init_state
     = registerEncryptedRefugee 666 11 12 13 1000 init_state"
    by blast
  have 2: "\<not> isl (registerEncryptedRefugee 666 11 12 13 1000 init_state)"
    by (simp add: exec_defs init_state_def)
  from T2 have 3: "verifyEligibility 900 1 1 (Some 7)
      (run [example_register, example_package] init_state)
     = verifyEligibility 666 1 1 (Some 7) (run [example_register, example_package] init_state)"
    by blast
  have 4: "\<not> isl (verifyEligibility 666 1 1 (Some 7)
     (run [example_register, example_package] init_state))"
    by (simp add: verifyEligibility_def onlyAgency_def Let_def)
  from T3 have 5: "approveRecord (example_env\<lparr>account := ''0xdef''\<rparr>) ''r1''
     [''aid_r1'' \<mapsto> Record_json (example_record pending)]
     = approveRecord example_env ''r1'' [''aid_r1'' \<mapsto> Record_json (example_record pending)]"
    by blast
  have 6: "\<not> isl (approveRecord example_env ''r1''
     [''aid_r1'' \<mapsto> Record_json (example_record pending)])"
    by (simp add: approveRecord_def)
  from 1 2 3 4 5 6 show ?thesis
    by (intro conjI)
qed

text \<open>
  Claim C4 as stated fails: under a denying decision the specified gate answers
  \<open>Unauthorized\<close> and leaves the state alone, whereas the contract has no decision to
  consult: the registration by caller 666 runs, succeeds and changes the state.
\<close>

theorem C4_denied_caller_counterexample:
  "spec_access_gate False (registerEncryptedRefugee 666 11 12 13 1000) init_state
     = Unauthorized \<and>
   \<not> isl (registerEncryptedRefugee 666 11 12 13 1000 init_state) \<and>
   refugeeCount init_state = 0 \<and>
   refugeeCount (transact (RegisterEncryptedRefugee 666 11 12 13 1000) init_state) = 1 \<and>
   refugee_exists (transact (RegisterEncryptedRefugee 666 11 12 13 1000) init_state) 1"
  by (simp add: exec_defs init_state_def spec_access_gate_def refugee_exists_def
      zero_refugee_def)

subsection \<open>Reveal requests for a missing verification\<close>

text \<open>
  Claim C10, as amended. \<open>requestVerificationResult\<close> makes no existence check of its
  own: where the result is not revealed, the call fails exactly when
  \<open>FHE.requestDecryption\<close> reverts. For an identifier that has no Verification the two
  handles it submits are zero handles, which the library refuses as assumed: the call
  fails and the transaction leaves the state unchanged, and in a run from deployment
  the failure is the library's revert. So in such a run every registered reveal
  request targets a Verification that exists, and every result that is revealed
  belongs to a Verification.
\<close>

theorem C10_reveal_request_for_missing_verification:
  "(\<not> isRevealed (decryptedResults s vid) \<longrightarrow>
      isl (requestVerificationResult x vid requested s) = (requested = None)) \<and>
   (\<not> verification_exists s vid \<longrightarrow>
      submitted_handles (RequestVerificationResult x vid requested) s = [0, 0]) \<and>
   (\<not> verification_exists s vid \<and> library_ok (RequestVerificationResult x vid requested) s \<longrightarrow>
      isl (requestVerificationResult x vid requested s) \<and>
      transact (RequestVerificationResult x vid requested) s = s) \<and>
   (runs_ok (cs @ [RequestVerificationResult x vid requested]) init_state \<and>
    \<not> verification_exists (run cs init_state) vid \<longrightarrow>
      requestVerificationResult x vid requested (run cs init_state)
        = Inl RequestDecryption_reverted \<and>
      run (cs @ [RequestVerificationResult x vid requested]) init_state = run cs init_state) \<and>
   (runs_ok cs init_state \<longrightarrow>
      (\<forall>q. verificationRequestToId (run cs init_state) q \<noteq> 0 \<longrightarrow>
         verification_exists (run cs init_state) (verificationRequestToId (run cs init_state) q)) \<and>
      (\<forall>i. isRevealed (decryptedResults (run cs init_state) i) \<longrightarrow>
         verification_exists (run cs init_state) i))"
proof -
  have 1: "isl (requestVerificationResult x vid requested s) = (requested = None)"
    if "\<not> isRevealed (decryptedResults s vid)"
    using that
    by (cases requested) (simp_all add: requestVerificationResult_def onlyAgency_def Let_def)
  have 2: "submitted_handles (RequestVerificationResult x vid requested) s = [0, 0]"
    if "\<not> verification_exists s vid" for s
    using that by (simp add: verification_exists_def zero_verification_def)
  have none: "requested = None"
    if "\<not> verification_exists s vid" "library_ok (RequestVerificationResult x vid requested) s"
    for s
    using that 2 [OF that(1)] by (cases requested) (simp_all add: library_ok_def)
  have 3: "isl (requestVerificationResult x vid requested s) \<and>
      transact (RequestVerificationResult x vid requested) s = s"
    if "\<not> verification_exists s vid \<and> library_ok (RequestVerificationResult x vid requested) s"
  proof -
    from that none have n: "requested = None"
      by blast
    then have "isl (requestVerificationResult x vid requested s)"
      by (simp add: requestVerificationResult_def onlyAgency_def Let_def)
    then show ?thesis
      by (cases "requestVerificationResult x vid requested s") (simp_all add: transact_def)
  qed
  have 4: "requestVerificationResult x vid requested (run cs init_state)
        = Inl RequestDecryption_reverted \<and>
      run (cs @ [RequestVerificationResult x vid requested]) init_state = run cs init_state"
    if h: "runs_ok (cs @ [RequestVerificationResult x vid requested]) init_state \<and>
      \<not> verification_exists (run cs init_state) vid"
  proof -
    from h have ok: "runs_ok cs init_state"
      and lib: "library_ok (RequestVerificationResult x vid requested) (run cs init_state)"
      and nv: "\<not> verification_exists (run cs init_state) vid"
      by (simp_all add: runs_ok_append)
    from none [OF nv lib] have n: "requested = None" .
    have "\<not> isRevealed (decryptedResults (run cs init_state) vid)"
    proof
      assume "isRevealed (decryptedResults (run cs init_state) vid)"
      from revealed_has_verification [OF ok this] nv
      show False
        by (simp add: verifications_inv_exists [OF reachable_invariants(2) [OF ok]])
    qed
    with n have "requestVerificationResult x vid requested (run cs init_state)
        = Inl RequestDecryption_reverted"
      by (simp add: requestVerificationResult_def onlyAgency_def Let_def)
    then show ?thesis
      by (simp add: run_append transact_def)
  qed
  have 5: "(\<forall>q. verificationRequestToId (run cs init_state) q \<noteq> 0 \<longrightarrow>
         verification_exists (run cs init_state) (verificationRequestToId (run cs init_state) q)) \<and>
      (\<forall>i. isRevealed (decryptedResults (run cs init_state) i) \<longrightarrow>
         verification_exists (run cs init_state) i)"
    if ok: "runs_ok cs init_state"
  proof -
    note ex = verifications_inv_exists [OF reachable_invariants(2) [OF ok]]
    have a: "verification_exists (run cs init_state) (verificationRequestToId (run cs init_state) q)"
      if nz: "verificationRequestToId (run cs init_state) q \<noteq> 0" for q
    proof -
      from reachable_invariants(1) [OF ok]
      have "verificationRequestToId (run cs init_state) q \<le> verificationCount (run cs init_state)"
        unfolding reveals_inv_def by blast
      with nz show ?thesis
        by (simp add: ex)
    qed
    have b: "verification_exists (run cs init_state) i"
      if "isRevealed (decryptedResults (run cs init_state) i)" for i
      using revealed_has_verification [OF ok that] by (simp add: ex)
    from a b show ?thesis
      by blast
  qed
  from 1 2 3 4 5 show ?thesis
    by (intro conjI impI) blast+
qed

theorem C10_reveal_request_for_missing_verification_witness:
  "\<not> verification_exists (run example_verified init_state) 5 \<and>
   \<not> isRevealed (decryptedResults (run example_verified init_state) 5) \<and>
   submitted_handles (RequestVerificationResult 900 5 None) (run example_verified init_state)
     = [0, 0] \<and>
   runs_ok (example_verified @ [RequestVerificationResult 900 5 None]) init_state \<and>
   requestVerificationResult 900 5 None (run example_verified init_state)
     = Inl RequestDecryption_reverted \<and>
   run (example_verified @ [RequestVerificationResult 900 5 None]) init_state
     = run example_verified init_state \<and>
   verificationRequestToId (run example_revealed init_state) 8 = 1 \<and>
   isRevealed (decryptedResults (run example_revealed init_state) 1) \<and>
   verification_exists (run example_revealed init_state) 1"
proof -
  have nv: "\<not> verification_exists (run example_verified init_state) 5"
    and nr: "\<not> isRevealed (decryptedResults (run example_verified init_state) 5)"
    by (simp_all add: exec_defs init_state_def run_example_performed verification_exists_def
        zero_verification_def zero_result_def)
  have ok: "runs_ok (example_verified @ [RequestVerificationResult 900 5 None]) init_state"
    by (simp add: exec_defs library_defs init_state_def run_example_performed)
  have q8: "verificationRequestToId (run example_revealed init_state) 8 = 1"
    and r1: "isRevealed (decryptedResults (run example_revealed init_state) 1)"
    by (simp_all add: exec_defs init_state_def run_example_performed)
  note T1 = C10_reveal_request_for_missing_verification [where s = "run example_verified init_state"
      and cs = example_verified and x = 900 and vid = 5 and requested = None]
  from T1 nv have h: "submitted_handles (RequestVerificationResult 900 5 None)
      (run example_verified init_state) = [0, 0]"
    by blast
  from T1 nv ok have e: "requestVerificationResult 900 5 None (run example_verified init_state)
     = Inl RequestDecryption_reverted"
    and u: "run (example_verified @ [RequestVerificationResult 900 5 None]) init_state
     = run example_verified init_state"
    by blast+
  note T2 = C10_reveal_request_for_missing_verification [where cs = example_revealed,
      THEN conjunct2, THEN conjunct2, THEN conjunct2, THEN conjunct2]
  from T2 example_steps(10)
  have "\<forall>i. isRevealed (decryptedResults (run example_revealed init_state) i) \<longrightarrow>
         verification_exists (run example_revealed init_state) i"
    by blast
  with r1 have v1: "verification_exists (run example_revealed init_state) 1"
    by blast
  from nv nr h ok e u q8 r1 v1 show ?thesis
    by (intro conjI)
qed

text \<open>
  Claim C10 as stated fails: no Verification 5 was created, the library accepts no
  request over the two zero handles, and the call reverts and registers nothing,
  where the claim says it succeeds and registers a reveal request.
\<close>

theorem C10_missing_verification_counterexample:
  "\<not> verification_exists (run example_verified init_state) 5 \<and>
   submitted_handles (RequestVerificationResult 900 5 (Some 8)) (run example_verified init_state)
     = [0, 0] \<and>
   \<not> library_ok (RequestVerificationResult 900 5 (Some 8)) (run example_verified init_state) \<and>
   library_ok (RequestVerificationResult 900 5 None) (run example_verified init_state) \<and>
   requestVerificationResult 900 5 None (run example_verified init_state)
     = Inl RequestDecryption_reverted \<and>
   transact (RequestVerificationResult 900 5 None) (run example_verified init_state)
     = run example_verified init_state \<and>
   verificationRequestToId
     (transact (RequestVerificationResult 900 5 None) (run example_verified init_state)) 8 = 0"
  by (simp add: exec_defs library_defs init_state_def run_example_performed
      verification_exists_def zero_verification_def zero_result_def)

subsection \<open>Record status\<close>

text \<open>
  Claim C5, as amended. \<open>approveRecord\<close> and \<open>distributeRecord\<close> do not read the current
  status. With a wallet provider, a contract, a successful \<open>getData\<close> and a successful
  \<open>setData\<close>, on a record that exists and parses, \<open>approveRecord\<close> stores the record
  with status approved and \<open>distributeRecord\<close> stores it with status distributed,
  whatever the status was; no other key changes, and a success is always of this
  form, so neither function ever writes the status rejected or refuses a transition.
  Only the record table restricts the actions: a row shows the Approve button exactly
  when its status is pending and the Distribute button exactly when its status is
  approved.
\<close>

theorem C5_status_set_unconditionally:
  "(provider_connected env \<and> contract_with_signer env \<and> getData_succeeds env \<and>
    setData_succeeds env \<and> st (''aid_'' @ recordId) = Some (Record_json r) \<longrightarrow>
      approveRecord env recordId st =
        Inr (st(''aid_'' @ recordId \<mapsto> Record_json (r\<lparr>status := approved\<rparr>))) \<and>
      distributeRecord env recordId st =
        Inr (st(''aid_'' @ recordId \<mapsto> Record_json (r\<lparr>status := distributed\<rparr>)))) \<and>
   (approveRecord env recordId st = Inr st' \<longrightarrow>
      (\<exists>r'. st (''aid_'' @ recordId) = Some (Record_json r') \<and>
         st' = st(''aid_'' @ recordId \<mapsto> Record_json (r'\<lparr>status := approved\<rparr>)))) \<and>
   (distributeRecord env recordId st = Inr st' \<longrightarrow>
      (\<exists>r'. st (''aid_'' @ recordId) = Some (Record_json r') \<and>
         st' = st(''aid_'' @ recordId \<mapsto> Record_json (r'\<lparr>status := distributed\<rparr>)))) \<and>
   (Approve \<in> set (row_buttons r)) = (status r = pending) \<and>
   (Distribute \<in> set (row_buttons r)) = (status r = approved)"
proof -
  have 1: "approveRecord env recordId st =
        Inr (st(''aid_'' @ recordId \<mapsto> Record_json (r\<lparr>status := approved\<rparr>))) \<and>
      distributeRecord env recordId st =
        Inr (st(''aid_'' @ recordId \<mapsto> Record_json (r\<lparr>status := distributed\<rparr>)))"
    if "provider_connected env \<and> contract_with_signer env \<and> getData_succeeds env \<and>
      setData_succeeds env \<and> st (''aid_'' @ recordId) = Some (Record_json r)"
    using that by (simp add: approveRecord_def distributeRecord_def Let_def)
  have 2: "\<exists>r'. st (''aid_'' @ recordId) = Some (Record_json r') \<and>
         st' = st(''aid_'' @ recordId \<mapsto> Record_json (r'\<lparr>status := approved\<rparr>))"
    if "approveRecord env recordId st = Inr st'"
    using that
    by (auto simp: approveRecord_def Let_def
        split: if_splits option.splits stored_bytes.splits)
  have 3: "\<exists>r'. st (''aid_'' @ recordId) = Some (Record_json r') \<and>
         st' = st(''aid_'' @ recordId \<mapsto> Record_json (r'\<lparr>status := distributed\<rparr>))"
    if "distributeRecord env recordId st = Inr st'"
    using that
    by (auto simp: distributeRecord_def Let_def
        split: if_splits option.splits stored_bytes.splits)
  have 4: "(Approve \<in> set (row_buttons r)) = (status r = pending)"
    by (simp add: row_buttons_def)
  have 5: "(Distribute \<in> set (row_buttons r)) = (status r = approved)"
    by (simp add: row_buttons_def)
  from 1 2 3 4 5 show ?thesis
    by blast
qed

theorem C5_status_set_unconditionally_witness:
  "approveRecord example_env ''r1'' [''aid_r1'' \<mapsto> Record_json (example_record pending)]
     = Inr [''aid_r1'' \<mapsto> Record_json (example_record approved)] \<and>
   distributeRecord example_env ''r1'' [''aid_r1'' \<mapsto> Record_json (example_record approved)]
     = Inr [''aid_r1'' \<mapsto> Record_json (example_record distributed)] \<and>
   row_buttons (example_record pending) = [Approve] \<and>
   (\<exists>r'. [''aid_r1'' \<mapsto> Record_json (example_record pending)] (''aid_'' @ ''r1'')
        = Some (Record_json r') \<and>
      [''aid_r1'' \<mapsto> Record_json (example_record approved)]
        = [''aid_r1'' \<mapsto> Record_json (example_record pending)]
            (''aid_'' @ ''r1'' \<mapsto> Record_json (r'\<lparr>status := approved\<rparr>))) \<and>
   (\<exists>r'. [''aid_r1'' \<mapsto> Record_json (example_record approved)] (''aid_'' @ ''r1'')
        = Some (Record_json r') \<and>
      [''aid_r1'' \<mapsto> Record_json (example_record distributed)]
        = [''aid_r1'' \<mapsto> Record_json (example_record approved)]
            (''aid_'' @ ''r1'' \<mapsto> Record_json (r'\<lparr>status := distributed\<rparr>)))"
proof -
  note T1 = C5_status_set_unconditionally [of example_env
      "[''aid_r1'' \<mapsto> Record_json (example_record pending)]" "''r1''"
      "example_record pending"]
  note T2 = C5_status_set_unconditionally [of example_env
      "[''aid_r1'' \<mapsto> Record_json (example_record approved)]" "''r1''"
      "example_record approved"]
  have 3: "row_buttons (example_record pending) = [Approve]"
    by (simp add: row_buttons_def)
  from T1 [THEN conjunct1]
  have 1: "approveRecord example_env ''r1'' [''aid_r1'' \<mapsto> Record_json (example_record pending)]
     = Inr [''aid_r1'' \<mapsto> Record_json (example_record approved)]"
    by simp
  from T2 [THEN conjunct1]
  have 2: "distributeRecord example_env ''r1''
       [''aid_r1'' \<mapsto> Record_json (example_record approved)]
     = Inr [''aid_r1'' \<mapsto> Record_json (example_record distributed)]"
    by simp
  note T3 = C5_status_set_unconditionally [where env = example_env
      and st = "[''aid_r1'' \<mapsto> Record_json (example_record pending)]"
      and recordId = "''r1''"
      and st' = "[''aid_r1'' \<mapsto> Record_json (example_record approved)]"]
  note T4 = C5_status_set_unconditionally [where env = example_env
      and st = "[''aid_r1'' \<mapsto> Record_json (example_record approved)]"
      and recordId = "''r1''"
      and st' = "[''aid_r1'' \<mapsto> Record_json (example_record distributed)]"]
  from T3 [THEN conjunct2, THEN conjunct1] 1
  have 4: "\<exists>r'. [''aid_r1'' \<mapsto> Record_json (example_record pending)] (''aid_'' @ ''r1'')
        = Some (Record_json r') \<and>
      [''aid_r1'' \<mapsto> Record_json (example_record approved)]
        = [''aid_r1'' \<mapsto> Record_json (example_record pending)]
            (''aid_'' @ ''r1'' \<mapsto> Record_json (r'\<lparr>status := approved\<rparr>))"
    by (rule mp)
  from T4 [THEN conjunct2, THEN conjunct2, THEN conjunct1] 2
  have 5: "\<exists>r'. [''aid_r1'' \<mapsto> Record_json (example_record approved)] (''aid_'' @ ''r1'')
        = Some (Record_json r') \<and>
      [''aid_r1'' \<mapsto> Record_json (example_record distributed)]
        = [''aid_r1'' \<mapsto> Record_json (example_record approved)]
            (''aid_'' @ ''r1'' \<mapsto> Record_json (r'\<lparr>status := distributed\<rparr>))"
    by (rule mp)
  from 1 2 3 4 5 show ?thesis
    by (intro conjI)
qed

text \<open>
  Claim C5 as stated fails: \<open>approveRecord\<close> on a distributed record succeeds and makes
  it approved again, and \<open>distributeRecord\<close> on a rejected record succeeds and makes it
  distributed, so rejected is not terminal.
\<close>

theorem C5_illegal_transition_counterexample:
  "approveRecord example_env ''r1'' [''aid_r1'' \<mapsto> Record_json (example_record distributed)]
     = Inr [''aid_r1'' \<mapsto> Record_json (example_record approved)] \<and>
   distributeRecord example_env ''r1'' [''aid_r1'' \<mapsto> Record_json (example_record rejected)]
     = Inr [''aid_r1'' \<mapsto> Record_json (example_record distributed)]"
  by (simp add: approveRecord_def distributeRecord_def Let_def)

end
